theory Spec2Isabelle
  imports Complex_Main "HOL-Library.AList"
begin

section \<open>The collector of the chicken feeder: server/backend/server.js\<close>

text \<open>
  The collector is an Express application over a PostgreSQL store (database/init.sql) with
  one periodic task, the missed-feeding check. The model below follows server.js from the
  point where a route handler receives the parsed JSON body (or the path and query
  parameters) and where the cron callback is entered. Each handler and the callback run
  to completion before the next one starts.

  What the process cannot decide by itself is an input of every operation, gathered in
  the record \<open>env\<close>: the clock readings, the host's offset from UTC, whether the store
  answers, and the library functions whose text is not part of the repository.
\<close>

subsection \<open>JSON values and query parameters\<close>

datatype json =
    JNull
  | JBool bool
  | JNum rat
  | JStr string
  | JArr "json list"
  | JObj "(string \<times> json) list"

text \<open>A parameter of \<open>pool.query(text, params)\<close>.\<close>

datatype param =
    PText string
  | PNum rat
  | PTexts "string list"
  | PJson json
  | PDate int

text \<open>
  Property access \<open>body[k]\<close> on a parsed value; \<open>None\<close> is \<open>undefined\<close>. An object is
  the list of its properties, one pair for each key.
\<close>

fun get_key :: "string \<Rightarrow> json \<Rightarrow> json option" where
  "get_key k (JObj kvs) = map_of kvs k"
| "get_key k _ = None"

fun str_of :: "json option \<Rightarrow> string" where
  "str_of (Some (JStr s)) = s"
| "str_of _ = []"

text \<open>A property as the handler passes it on, unconverted; \<open>undefined\<close> is kept as \<open>JNull\<close>.\<close>

fun raw_of :: "json option \<Rightarrow> json" where
  "raw_of (Some v) = v"
| "raw_of None = JNull"

text \<open>
  What the driver sends for a body value used as a parameter: a text as it is, a number as
  a number (which the driver prints), anything else as JSON.
\<close>

fun param_of :: "json \<Rightarrow> param" where
  "param_of (JStr s) = PText s"
| "param_of (JNum x) = PNum x"
| "param_of v = PJson v"

fun strs_of :: "json option \<Rightarrow> string list" where
  "strs_of (Some (JArr xs)) = map (\<lambda>x. str_of (Some x)) xs"
| "strs_of _ = []"

subsection \<open>The store: database/init.sql\<close>

text \<open>
  Instants are integers, milliseconds on one time line. The three tables are lists of rows
  in insertion order; the two \<open>SERIAL\<close> columns draw from sequences kept beside them.
\<close>

record device_config_row =
  dc_device_id :: string
  dc_feeding_times :: "string list"
  dc_duration_minutes :: int
  dc_created_at :: int
  dc_updated_at :: int

record feeding_log_row =
  fl_id :: nat
  fl_device_id :: string
  fl_action :: string
  fl_timestamp :: int
  fl_details :: json
  fl_created_at :: int

record missed_feeding_row =
  mf_id :: nat
  mf_device_id :: string
  mf_scheduled_time :: int
  mf_detected_at :: int
  mf_resolved :: bool

record database =
  device_configs :: "device_config_row list"
  feeding_logs :: "feeding_log_row list"
  missed_feedings :: "missed_feeding_row list"
  feeding_logs_id_seq :: nat
  missed_feedings_id_seq :: nat

datatype exn =
    StoreFailure
  | ValueTooLong
  | InvalidInteger
  | InvalidTimestamp

text \<open>
  The statements server.js sends. The five with fixed text are named; a \<open>SELECT\<close> whose
  text is assembled at run time carries that text.
\<close>

datatype statement =
    UpsertDeviceConfig
  | InsertFeedingLog
  | SelectMissedFeedings
  | CountOpenFeedings
  | InsertMissedFeeding
  | Select string

subsection \<open>Inputs from outside the process\<close>

record env =
  now :: int
  tza :: int
  db_now :: int
  db_up :: bool
  rejects :: "statement \<Rightarrow> param list \<Rightarrow> bool"
  is_iso_date :: "json \<Rightarrow> bool"
  number_of_text :: "string \<Rightarrow> string + rat"
  pg_timestamp :: "json \<Rightarrow> int option"
  pg_integer :: "string \<Rightarrow> int option"
  select_rows :: "statement \<Rightarrow> param list \<Rightarrow> database \<Rightarrow> json"
  utc_date :: "int \<Rightarrow> string"

text \<open>
  \<^item> \<open>now\<close> is the value of \<open>new Date()\<close>, \<open>tza\<close> the host's local offset from UTC at that
    instant (what \<open>getHours\<close> and \<open>getMinutes\<close> add), \<open>db_now\<close> the store's \<open>NOW()\<close>.
  \<^item> \<open>db_up\<close> is false when the store is unreachable; \<open>rejects\<close> says which single
    statements the store refuses for a reason this model does not spell out.
  \<^item> \<open>is_iso_date\<close> is Joi's reading of \<open>date().iso()\<close> on a text or on a number, which it
    reads through its digits (the number 2024 is the ISO date of that year);
    \<open>number_of_text\<close> is Joi's conversion of a text for \<open>number()\<close>: the number, or the
    type of the error.
  \<^item> \<open>pg_timestamp\<close> is the store's reading, as a \<open>TIMESTAMP\<close>, of what the driver sends for
    a text or a number; \<open>pg_integer\<close> is its reading of a text as an \<open>INTEGER\<close>.
  \<^item> \<open>select_rows\<close> is the rows the store answers to a \<open>SELECT\<close> of the read endpoints,
    \<open>utc_date\<close> is \<open>toISOString().split('T')[0]\<close>.
\<close>

definition pool_query_fails :: "env \<Rightarrow> statement \<Rightarrow> param list \<Rightarrow> bool" where
  "pool_query_fails e st ps = (\<not> db_up e \<or> rejects e st ps)"

text \<open>
  \<open>VARCHAR(n)\<close> on assignment: a longer value is an error unless the excess is spaces, which
  are cut.
\<close>

definition varchar :: "nat \<Rightarrow> string \<Rightarrow> exn + string" where
  "varchar n s =
     (if length s \<le> n then Inr s
      else if list_all (\<lambda>c. c = CHR '' '') (drop n s) then Inr (take n s)
      else Inl ValueTooLong)"

text \<open>
  \<open>INTEGER\<close> from the text the driver sends for a number, and from a body value: a number
  goes that way, a text is read by the store.
\<close>

definition integer_of :: "rat \<Rightarrow> exn + int" where
  "integer_of x = (if of_int \<lfloor>x\<rfloor> = x then Inr \<lfloor>x\<rfloor> else Inl InvalidInteger)"

definition integer_of_value :: "env \<Rightarrow> json \<Rightarrow> exn + int" where
  "integer_of_value e v =
     (case v of
        JNum x \<Rightarrow> integer_of x
      | JStr t \<Rightarrow> (case pg_integer e t of None \<Rightarrow> Inl InvalidInteger | Some n \<Rightarrow> Inr n)
      | _ \<Rightarrow> Inl InvalidInteger)"

text \<open>
  \<open>INSERT INTO device_configs ... ON CONFLICT (device_id) DO UPDATE SET feeding_times = $2,
  duration_minutes = $3, updated_at = NOW()\<close>.
\<close>

definition upsert_device_config ::
  "env \<Rightarrow> string \<Rightarrow> string list \<Rightarrow> json \<Rightarrow> database \<Rightarrow> exn + database" where
  "upsert_device_config e device_id feeding_times duration_minutes d =
     (if pool_query_fails e UpsertDeviceConfig
           [PText device_id, PTexts feeding_times, param_of duration_minutes]
      then Inl StoreFailure
      else case integer_of_value e duration_minutes of
        Inl x \<Rightarrow> Inl x
      | Inr n \<Rightarrow>
         (case varchar 100 device_id of
            Inl x \<Rightarrow> Inl x
          | Inr dev \<Rightarrow>
              Inr (d\<lparr>device_configs :=
                (if list_ex (\<lambda>r. dc_device_id r = dev) (device_configs d)
                 then map (\<lambda>r. if dc_device_id r = dev
                                then r\<lparr>dc_feeding_times := feeding_times,
                                       dc_duration_minutes := n,
                                       dc_updated_at := db_now e\<rparr>
                                else r) (device_configs d)
                 else device_configs d @
                      [\<lparr>dc_device_id = dev, dc_feeding_times = feeding_times,
                        dc_duration_minutes = n, dc_created_at = db_now e,
                        dc_updated_at = db_now e\<rparr>])\<rparr>)))"

text \<open>
  \<open>INSERT INTO feeding_logs (device_id, action, timestamp, details) VALUES ($1, $2, $3, $4)\<close>:
  one new row at the end of the table, its id from the sequence.
\<close>

definition insert_feeding_log ::
  "env \<Rightarrow> string \<Rightarrow> string \<Rightarrow> json \<Rightarrow> json \<Rightarrow> database \<Rightarrow> exn + database" where
  "insert_feeding_log e device_id action timestamp details d =
     (if pool_query_fails e InsertFeedingLog
           [PText device_id, PText action, param_of timestamp, PJson details]
      then Inl StoreFailure
      else case pg_timestamp e timestamp of
        None \<Rightarrow> Inl InvalidTimestamp
      | Some t \<Rightarrow>
         (case varchar 100 device_id of
            Inl x \<Rightarrow> Inl x
          | Inr dev \<Rightarrow>
             (case varchar 50 action of
                Inl x \<Rightarrow> Inl x
              | Inr act \<Rightarrow>
                  Inr (d\<lparr>feeding_logs := feeding_logs d @
                          [\<lparr>fl_id = Suc (feeding_logs_id_seq d), fl_device_id = dev,
                            fl_action = act, fl_timestamp = t, fl_details = details,
                            fl_created_at = db_now e\<rparr>],
                        feeding_logs_id_seq := Suc (feeding_logs_id_seq d)\<rparr>))))"

text \<open>
  \<open>SELECT COUNT(*) FROM feeding_logs WHERE device_id = $1 AND action = 'open' AND
  timestamp >= NOW() - INTERVAL '5 minutes'\<close>.
\<close>

definition is_recent_open :: "env \<Rightarrow> string \<Rightarrow> feeding_log_row \<Rightarrow> bool" where
  "is_recent_open e deviceId r =
     (fl_device_id r = deviceId \<and> fl_action r = ''open'' \<and> db_now e - 300000 \<le> fl_timestamp r)"

definition count_open_feedings :: "env \<Rightarrow> string \<Rightarrow> database \<Rightarrow> exn + nat" where
  "count_open_feedings e deviceId d =
     (if pool_query_fails e CountOpenFeedings [PText deviceId] then Inl StoreFailure
      else Inr (length (filter (is_recent_open e deviceId) (feeding_logs d))))"

text \<open>
  \<open>INSERT INTO missed_feedings (device_id, scheduled_time, detected_at) VALUES ($1, $2, NOW())
  ON CONFLICT (device_id, scheduled_time) DO NOTHING\<close>, under \<open>UNIQUE(device_id,
  scheduled_time)\<close>. The id is drawn from the sequence before the conflict is seen.
\<close>

definition has_incident :: "database \<Rightarrow> string \<Rightarrow> int \<Rightarrow> bool" where
  "has_incident d dev t =
     list_ex (\<lambda>r. mf_device_id r = dev \<and> mf_scheduled_time r = t) (missed_feedings d)"

definition mf_key :: "missed_feeding_row \<Rightarrow> string \<times> int" where
  "mf_key r = (mf_device_id r, mf_scheduled_time r)"

definition insert_missed_feeding :: "env \<Rightarrow> string \<Rightarrow> int \<Rightarrow> database \<Rightarrow> exn + database" where
  "insert_missed_feeding e deviceId scheduled d =
     (if pool_query_fails e InsertMissedFeeding [PText deviceId, PDate scheduled]
      then Inl StoreFailure
      else case varchar 100 deviceId of
        Inl x \<Rightarrow> Inl x
      | Inr dev \<Rightarrow>
          Inr (if has_incident d dev scheduled
               then d\<lparr>missed_feedings_id_seq := Suc (missed_feedings_id_seq d)\<rparr>
               else d\<lparr>missed_feedings := missed_feedings d @
                        [\<lparr>mf_id = Suc (missed_feedings_id_seq d), mf_device_id = dev,
                          mf_scheduled_time = scheduled, mf_detected_at = db_now e,
                          mf_resolved = False\<rparr>],
                      missed_feedings_id_seq := Suc (missed_feedings_id_seq d)\<rparr>))"

text \<open>A \<open>SELECT\<close> of a read endpoint: it fails or answers rows, and writes nothing.\<close>

definition pool_query_select ::
  "env \<Rightarrow> statement \<Rightarrow> param list \<Rightarrow> database \<Rightarrow> exn + json" where
  "pool_query_select e st ps d =
     (if pool_query_fails e st ps then Inl StoreFailure else Inr (select_rows e st ps d))"

subsection \<open>Joi schemas\<close>

text \<open>
  The two schemas with Joi's defaults. \<open>validate\<close> converts before it judges: \<open>number()\<close>
  takes a number or a text that \<open>number_of_text\<close> converts, \<open>date().iso()\<close> takes a text or
  a number that \<open>is_iso_date\<close> accepts; \<open>string()\<close>, \<open>array()\<close> and \<open>object()\<close> take values of
  their own type only. The handlers read only the error of the result and go on with the
  body as it was posted. An error is Joi's error type with the path it is reported at;
  validation stops at the first error, keys in the order of the schema, keys the schema
  does not name last.
\<close>

datatype joi_error = JoiError string string

datatype joi_type =
    JoiString
  | JoiStringValid "string list"
  | JoiStringPattern "string \<Rightarrow> bool"
  | JoiDateIso
  | JoiObject
  | JoiNumberMinMax rat rat
  | JoiArrayItems joi_type

datatype presence = Required | Optional

type_synonym joi_object = "(string \<times> joi_type \<times> presence) list"

fun digits :: "nat \<Rightarrow> string" where
  "digits n =
     (if n < 10 then [''0123456789'' ! n]
      else digits (n div 10) @ [''0123456789'' ! (n mod 10)])"

declare digits.simps [simp del]

fun first_error :: "'a option list \<Rightarrow> 'a option" where
  "first_error [] = None"
| "first_error (None # xs) = first_error xs"
| "first_error (Some x # xs) = Some x"

text \<open>The value \<open>number()\<close> judges: the number itself, or the one a text converts to.\<close>

definition joi_number :: "env \<Rightarrow> json \<Rightarrow> string + rat" where
  "joi_number e v =
     (case v of
        JNum x \<Rightarrow> Inr x
      | JStr t \<Rightarrow> number_of_text e t
      | _ \<Rightarrow> Inl ''number.base'')"

primrec validate_value :: "env \<Rightarrow> joi_type \<Rightarrow> string \<Rightarrow> json \<Rightarrow> joi_error option" where
  "validate_value e JoiString = (\<lambda>path v.
     case v of
       JStr s \<Rightarrow> if s = [] then Some (JoiError ''string.empty'' path) else None
     | _ \<Rightarrow> Some (JoiError ''string.base'' path))"
| "validate_value e (JoiStringValid allowed) = (\<lambda>path v.
     case v of
       JStr s \<Rightarrow> if List.member allowed s then None else Some (JoiError ''any.only'' path)
     | _ \<Rightarrow> Some (JoiError ''any.only'' path))"
| "validate_value e (JoiStringPattern re) = (\<lambda>path v.
     case v of
       JStr s \<Rightarrow>
         if s = [] then Some (JoiError ''string.empty'' path)
         else if re s then None
         else Some (JoiError ''string.pattern.base'' path)
     | _ \<Rightarrow> Some (JoiError ''string.base'' path))"
| "validate_value e JoiDateIso = (\<lambda>path v.
     case v of
       JStr s \<Rightarrow> if is_iso_date e v then None else Some (JoiError ''date.format'' path)
     | JNum x \<Rightarrow> if is_iso_date e v then None else Some (JoiError ''date.base'' path)
     | _ \<Rightarrow> Some (JoiError ''date.base'' path))"
| "validate_value e JoiObject = (\<lambda>path v.
     case v of
       JObj kvs \<Rightarrow> None
     | _ \<Rightarrow> Some (JoiError ''object.base'' path))"
| "validate_value e (JoiNumberMinMax lo hi) = (\<lambda>path v.
     case joi_number e v of
       Inl err \<Rightarrow> Some (JoiError err path)
     | Inr x \<Rightarrow>
         if x < - 9007199254740991 \<or> 9007199254740991 < x
         then Some (JoiError ''number.unsafe'' path)
         else if x < lo then Some (JoiError ''number.min'' path)
         else if hi < x then Some (JoiError ''number.max'' path)
         else None)"
| "validate_value e (JoiArrayItems t) = (\<lambda>path v.
     case v of
       JArr xs \<Rightarrow>
         first_error (map (\<lambda>(i, x). validate_value e t (path @ ''['' @ digits i @ '']'') x)
                          (enumerate 0 xs))
     | _ \<Rightarrow> Some (JoiError ''array.base'' path))"

fun validate_keys :: "env \<Rightarrow> joi_object \<Rightarrow> json \<Rightarrow> joi_error option" where
  "validate_keys e [] body = None"
| "validate_keys e ((k, t, p) # ks) body =
     (case get_key k body of
        None \<Rightarrow>
          if p = Required then Some (JoiError ''any.required'' k) else validate_keys e ks body
      | Some v \<Rightarrow>
          (case validate_value e t k v of
             Some err \<Rightarrow> Some err
           | None \<Rightarrow> validate_keys e ks body))"

definition validate :: "env \<Rightarrow> joi_object \<Rightarrow> json \<Rightarrow> joi_error option" where
  "validate e schema body =
     (case body of
        JObj kvs \<Rightarrow>
          (case validate_keys e schema body of
             Some err \<Rightarrow> Some err
           | None \<Rightarrow>
               (case filter (\<lambda>k. \<not> List.member (map fst schema) k) (map fst kvs) of
                  [] \<Rightarrow> None
                | k # ks \<Rightarrow> Some (JoiError ''object.unknown'' k)))
      | _ \<Rightarrow> Some (JoiError ''object.base'' ''value''))"

text \<open>The pattern \<open>/^([01]\d|2[0-3]):([0-5]\d)$/\<close>.\<close>

fun time_pattern :: "string \<Rightarrow> bool" where
  "time_pattern [h1, h2, c, m1, m2] =
     (((List.member ''01'' h1 \<and> List.member ''0123456789'' h2) \<or>
       (h1 = CHR ''2'' \<and> List.member ''0123'' h2)) \<and>
      c = CHR '':'' \<and> List.member ''012345'' m1 \<and> List.member ''0123456789'' m2)"
| "time_pattern s = False"

definition feedingLogSchema :: joi_object where
  "feedingLogSchema =
     [(''device_id'', JoiString, Required),
      (''action'', JoiStringValid [''open'', ''close'', ''error'', ''startup'', ''shutdown''],
         Required),
      (''timestamp'', JoiDateIso, Required),
      (''details'', JoiObject, Optional)]"

definition configUpdateSchema :: joi_object where
  "configUpdateSchema =
     [(''device_id'', JoiString, Required),
      (''feeding_times'', JoiArrayItems (JoiStringPattern time_pattern), Required),
      (''duration_minutes'', JoiNumberMinMax 1 120, Required)]"

subsection \<open>The process state and what a handler gives back\<close>

text \<open>
  \<open>deviceConfigs\<close> is the \<open>Map\<close> of server.js: entries in insertion order, \<open>set\<close> on a key
  that is present replacing the value in place; \<open>duration_minutes\<close> is the value of the
  body, a number or a text. Log lines are an output, not state; \<open>logger.error(message,
  error)\<close> writes the message with the error it was given.
\<close>

record config =
  feeding_times :: "string list"
  duration_minutes :: json
  last_update :: int

record server =
  deviceConfigs :: "(string \<times> config) list"
  db :: database

datatype log_entry =
    LogInfo string
  | LogWarn string
  | LogError string exn

datatype payload =
    Json json
  | JoiMessage joi_error
  | Health int

record response =
  status :: nat
  payload :: payload

definition internal_server_error :: response where
  "internal_server_error =
     \<lparr>status = 500, payload = Json (JObj [(''error'', JStr ''Internal server error'')])\<rparr>"

subsection \<open>Route handlers\<close>

definition get_health :: "env \<Rightarrow> server \<Rightarrow> response \<times> log_entry list \<times> server" where
  "get_health e s = (\<lparr>status = 200, payload = Health (now e)\<rparr>, [], s)"

definition post_device_config ::
  "env \<Rightarrow> json \<Rightarrow> server \<Rightarrow> response \<times> log_entry list \<times> server" where
  "post_device_config e body s =
     (case validate e configUpdateSchema body of
        Some err \<Rightarrow> (\<lparr>status = 400, payload = JoiMessage err\<rparr>, [], s)
      | None \<Rightarrow>
          (let device_id = str_of (get_key ''device_id'' body);
               times = strs_of (get_key ''feeding_times'' body);
               duration = raw_of (get_key ''duration_minutes'' body);
               s1 = s\<lparr>deviceConfigs :=
                      AList.update device_id
                        \<lparr>feeding_times = times, duration_minutes = duration,
                         last_update = now e\<rparr>
                        (deviceConfigs s)\<rparr>
           in case upsert_device_config e device_id times duration (db s1) of
                Inl x \<Rightarrow>
                  (internal_server_error, [LogError ''Error updating device config:'' x], s1)
              | Inr d \<Rightarrow>
                  (\<lparr>status = 200,
                    payload = Json (JObj [(''success'', JBool True),
                                          (''message'', JStr ''Configuration updated'')])\<rparr>,
                   [LogInfo (''Device config updated: '' @ device_id)],
                   s1\<lparr>db := d\<rparr>)))"

definition post_feeding_log ::
  "env \<Rightarrow> json \<Rightarrow> server \<Rightarrow> response \<times> log_entry list \<times> server" where
  "post_feeding_log e body s =
     (case validate e feedingLogSchema body of
        Some err \<Rightarrow> (\<lparr>status = 400, payload = JoiMessage err\<rparr>, [], s)
      | None \<Rightarrow>
          (let device_id = str_of (get_key ''device_id'' body);
               action = str_of (get_key ''action'' body);
               timestamp = raw_of (get_key ''timestamp'' body);
               details = (case get_key ''details'' body of Some v \<Rightarrow> v | None \<Rightarrow> JObj [])
           in case insert_feeding_log e device_id action timestamp details (db s) of
                Inl x \<Rightarrow>
                  (internal_server_error, [LogError ''Error logging feeding event:'' x], s)
              | Inr d \<Rightarrow>
                  (\<lparr>status = 200, payload = Json (JObj [(''success'', JBool True)])\<rparr>,
                   [LogInfo (''Feeding event logged: '' @ device_id @ '' - '' @ action)],
                   s\<lparr>db := d\<rparr>)))"

text \<open>
  \<open>GET /api/feeding/logs/:device_id\<close>. A query parameter is a text or absent; \<open>if
  (start_date)\<close> is taken for a text that is not empty, and \<open>limit\<close> is the number 100 only
  when the parameter is absent.
\<close>

definition nl :: string where
  "nl = [CHR 0x0A]"

definition and_timestamp :: "string \<Rightarrow> string option \<Rightarrow> string \<times> param list \<Rightarrow> string \<times> param list" where
  "and_timestamp cmp v qp =
     (case v of
        Some (c # cs) \<Rightarrow>
          (fst qp @ '' AND timestamp '' @ cmp @ '' $'' @ digits (length (snd qp) + 1),
           snd qp @ [PText (c # cs)])
      | _ \<Rightarrow> qp)"

definition feeding_logs_query ::
  "string \<Rightarrow> string option \<Rightarrow> string option \<Rightarrow> string option \<Rightarrow> string \<times> param list" where
  "feeding_logs_query device_id start_date end_date limit =
     (let qp0 = (nl @ ''      SELECT * FROM feeding_logs'' @ nl @
                 ''      WHERE device_id = $1'' @ nl @ ''    '', [PText device_id]);
          qp1 = and_timestamp ''>='' start_date qp0;
          qp2 = and_timestamp ''<='' end_date qp1
      in (fst qp2 @ '' ORDER BY timestamp DESC LIMIT $'' @ digits (length (snd qp2) + 1),
          snd qp2 @ [case limit of None \<Rightarrow> PNum 100 | Some l \<Rightarrow> PText l]))"

definition get_feeding_logs ::
  "env \<Rightarrow> string \<Rightarrow> string option \<Rightarrow> string option \<Rightarrow> string option \<Rightarrow> server \<Rightarrow>
   response \<times> log_entry list \<times> server" where
  "get_feeding_logs e device_id start_date end_date limit s =
     (let qp = feeding_logs_query device_id start_date end_date limit
      in case pool_query_select e (Select (fst qp)) (snd qp) (db s) of
           Inl x \<Rightarrow> (internal_server_error, [LogError ''Error fetching logs:'' x], s)
         | Inr rows \<Rightarrow> (\<lparr>status = 200, payload = Json rows\<rparr>, [], s))"

text \<open>\<open>GET /api/feeding/missed/:device_id\<close>; \<open>date\<close> is today's UTC date when absent.\<close>

definition get_feeding_missed ::
  "env \<Rightarrow> string \<Rightarrow> string option \<Rightarrow> server \<Rightarrow> response \<times> log_entry list \<times> server" where
  "get_feeding_missed e device_id date s =
     (let day = (case date of None \<Rightarrow> utc_date e (now e) | Some t \<Rightarrow> t)
      in case pool_query_select e SelectMissedFeedings [PText device_id, PText day] (db s) of
           Inl x \<Rightarrow> (internal_server_error, [LogError ''Error fetching missed feedings:'' x], s)
         | Inr rows \<Rightarrow> (\<lparr>status = 200, payload = Json rows\<rparr>, [], s))"

text \<open>
  \<open>GET /api/stats/:device_id\<close>. Both statements are template literals with \<open>${days}\<close> inside
  the text; \<open>days\<close> is the query parameter as received, or the number 7, printed as \<open>7\<close>.
\<close>

definition stats_query :: "string \<Rightarrow> string" where
  "stats_query days =
     ''SELECT'' @ nl @
     ''        DATE(timestamp) as date,'' @ nl @
     ''        COUNT(CASE WHEN action = 'open' THEN 1 END) as opens,'' @ nl @
     ''        COUNT(CASE WHEN action = 'close' THEN 1 END) as closes,'' @ nl @
     ''        COUNT(CASE WHEN action = 'error' THEN 1 END) as errors'' @ nl @
     ''       FROM feeding_logs'' @ nl @
     ''       WHERE device_id = $1'' @ nl @
     ''       AND timestamp >= NOW() - INTERVAL '' @ [CHR 0x27] @ days @ '' days'' @ [CHR 0x27] @ nl @
     ''       GROUP BY DATE(timestamp)'' @ nl @
     ''       ORDER BY date DESC''"

definition missed_stats_query :: "string \<Rightarrow> string" where
  "missed_stats_query days =
     ''SELECT DATE(scheduled_time) as date, COUNT(*) as missed_count'' @ nl @
     ''       FROM missed_feedings'' @ nl @
     ''       WHERE device_id = $1'' @ nl @
     ''       AND scheduled_time >= NOW() - INTERVAL ''
       @ [CHR 0x27] @ days @ '' days'' @ [CHR 0x27] @ nl @
     ''       GROUP BY DATE(scheduled_time)''"

definition get_stats ::
  "env \<Rightarrow> string \<Rightarrow> string option \<Rightarrow> server \<Rightarrow> response \<times> log_entry list \<times> server" where
  "get_stats e device_id days s =
     (let n = (case days of None \<Rightarrow> ''7'' | Some t \<Rightarrow> t)
      in case pool_query_select e (Select (stats_query n)) [PText device_id] (db s) of
           Inl x \<Rightarrow> (internal_server_error, [LogError ''Error fetching statistics:'' x], s)
         | Inr stats \<Rightarrow>
            (case pool_query_select e (Select (missed_stats_query n)) [PText device_id] (db s) of
               Inl x \<Rightarrow>
                 (internal_server_error, [LogError ''Error fetching statistics:'' x], s)
             | Inr missed \<Rightarrow>
                 (\<lparr>status = 200,
                   payload = Json (JObj [(''feeding_stats'', stats),
                                         (''missed_feedings'', missed)])\<rparr>,
                  [], s)))"

subsection \<open>The missed-feeding check\<close>

text \<open>
  \<open>getHours\<close> and \<open>getMinutes\<close> read the instant in the host's local time; \<open>toString\<close> and
  \<open>padStart(2, '0')\<close> give the two fields of \<open>currentTime\<close>.
\<close>

definition padStart :: "nat \<Rightarrow> char \<Rightarrow> string \<Rightarrow> string" where
  "padStart n c s = replicate (n - length s) c @ s"

definition getHours :: "env \<Rightarrow> nat" where
  "getHours e = nat (((now e + tza e) div 3600000) mod 24)"

definition getMinutes :: "env \<Rightarrow> nat" where
  "getMinutes e = nat (((now e + tza e) div 60000) mod 60)"

definition currentTime :: "env \<Rightarrow> string" where
  "currentTime e =
     padStart 2 (CHR ''0'') (digits (getHours e)) @ '':'' @
     padStart 2 (CHR ''0'') (digits (getMinutes e))"

text \<open>
  The \<open>for\<close> loop over \<open>deviceConfigs.entries()\<close>. A statement that fails throws: the loop
  ends there, with what it has written so far, and the exception goes to the \<open>catch\<close>.
\<close>

fun check_devices ::
  "env \<Rightarrow> string \<Rightarrow> (string \<times> config) list \<Rightarrow> log_entry list \<Rightarrow> database \<Rightarrow>
   exn option \<times> log_entry list \<times> database" where
  "check_devices e ct [] lg d = (None, lg, d)"
| "check_devices e ct ((deviceId, cfg) # rest) lg d =
     (if List.member (feeding_times cfg) ct then
        (case count_open_feedings e deviceId d of
           Inl x \<Rightarrow> (Some x, lg, d)
         | Inr count \<Rightarrow>
             if count = 0 then
               (case insert_missed_feeding e deviceId (now e) d of
                  Inl x \<Rightarrow> (Some x, lg, d)
                | Inr d' \<Rightarrow>
                    check_devices e ct rest
                      (lg @ [LogWarn (''Missed feeding detected for device: '' @ deviceId @
                                     '' at '' @ ct)]) d')
             else check_devices e ct rest lg d)
      else check_devices e ct rest lg d)"

text \<open>
  The callback of \<open>cron.schedule('* * * * *', ...)\<close>: the whole body is inside \<open>try\<close>, and
  the \<open>catch\<close> logs. The first component is the exception that leaves the callback.
\<close>

definition cron_tick :: "env \<Rightarrow> server \<Rightarrow> exn option \<times> log_entry list \<times> server" where
  "cron_tick e s =
     (case check_devices e (currentTime e) (deviceConfigs s) [] (db s) of
        (Some x, lg, d) \<Rightarrow>
          (None, lg @ [LogError ''Error checking for missed feedings:'' x], s\<lparr>db := d\<rparr>)
      | (None, lg, d) \<Rightarrow> (None, lg, s\<lparr>db := d\<rparr>))"

subsection \<open>Everything the collector does\<close>

datatype request =
    GetHealth
  | PostDeviceConfig json
  | PostFeedingLog json
  | GetFeedingLogs string "string option" "string option" "string option"
  | GetFeedingMissed string "string option"
  | GetStats string "string option"

fun handle :: "env \<Rightarrow> request \<Rightarrow> server \<Rightarrow> response \<times> log_entry list \<times> server" where
  "handle e GetHealth s = get_health e s"
| "handle e (PostDeviceConfig body) s = post_device_config e body s"
| "handle e (PostFeedingLog body) s = post_feeding_log e body s"
| "handle e (GetFeedingLogs device_id start_date end_date limit) s =
     get_feeding_logs e device_id start_date end_date limit s"
| "handle e (GetFeedingMissed device_id date) s = get_feeding_missed e device_id date s"
| "handle e (GetStats device_id days) s = get_stats e device_id days s"

datatype operation = Request request | CronTick

fun step :: "env \<Rightarrow> operation \<Rightarrow> server \<Rightarrow> server" where
  "step e (Request r) s = snd (snd (handle e r s))"
| "step e CronTick s = snd (snd (cron_tick e s))"

fun run :: "(env \<times> operation) list \<Rightarrow> server \<Rightarrow> server" where
  "run [] s = s"
| "run ((e, op) # ops) s = run ops (step e op s)"

subsection \<open>The life of the process\<close>

text \<open>
  What happens to the process, in order: the scheduler calls the callback once for every
  minute, a request arrives, or the pool emits \<open>'error'\<close> for an idle connection that the
  store or the network has dropped. server.js registers no listener for that event, so
  Node ends the process there; a callback that lets an exception out ends it too. The
  result is the state the process is left in, or how it ended.
\<close>

datatype event =
    Minute env
  | Incoming env request
  | PoolError



section \<open>Worked inputs\<close>

text \<open>
  One concrete setting used by the examples below: the instant 2024-01-01T12:00:00.000Z on
  a host at UTC, a store that answers and refuses nothing, one timestamp text
  (2024-01-01T11:57:00Z) known to the two readers of timestamps, the number 2024 that Joi
  takes for a date and the store does not take for a timestamp, the text \<open>30\<close> that both
  read as the number, and a device \<open>feeder-1\<close> whose schedule is \<open>["12:00"]\<close>.
\<close>

definition env0 :: env where
  "env0 =
     \<lparr>now = 1704110400000, tza = 0, db_now = 1704110400000, db_up = True,
      rejects = (\<lambda>st ps. False),
      is_iso_date = (\<lambda>v. v = JStr ''2024-01-01T11:57:00Z'' \<or> v = JNum 2024),
      number_of_text = (\<lambda>t. if t = ''30'' then Inr 30 else Inl ''number.base''),
      pg_timestamp =
        (\<lambda>v. if v = JStr ''2024-01-01T11:57:00Z'' then Some 1704110220000 else None),
      pg_integer = (\<lambda>t. if t = ''30'' then Some 30 else None),
      select_rows = (\<lambda>st ps d. JArr []),
      utc_date = (\<lambda>t. ''2024-01-01'')\<rparr>"

definition env_kst :: env where
  "env_kst = env0\<lparr>tza := 32400000\<rparr>"

definition env_down :: env where
  "env_down = env0\<lparr>db_up := False\<rparr>"

definition empty_db :: database where
  "empty_db =
     \<lparr>device_configs = [], feeding_logs = [], missed_feedings = [],
      feeding_logs_id_seq = 0, missed_feedings_id_seq = 0\<rparr>"

definition server0 :: server where
  "server0 = \<lparr>deviceConfigs = [], db = empty_db\<rparr>"

definition cfg12 :: config where
  "cfg12 = \<lparr>feeding_times = [''12:00''], duration_minutes = JNum 30, last_update = 0\<rparr>"

definition server1 :: server where
  "server1 = \<lparr>deviceConfigs = [(''feeder-1'', cfg12)], db = empty_db\<rparr>"

text \<open>
  \<open>env_at k\<close> is the same setting \<open>k\<close> milliseconds after noon. The two bodies are what
  the feeder posts: one event and one configuration.
\<close>

definition env_at :: "int \<Rightarrow> env" where
  "env_at k = env0\<lparr>now := 1704110400000 + k, db_now := 1704110400000 + k\<rparr>"

definition open_body :: json where
  "open_body =
     JObj [(''device_id'', JStr ''feeder-1''), (''action'', JStr ''open''),
           (''timestamp'', JStr ''2024-01-01T11:57:00Z''),
           (''details'', JObj [(''duration'', JNum 30)])]"

text \<open>An event whose timestamp is a number.\<close>

definition year_body :: json where
  "year_body =
     JObj [(''device_id'', JStr ''feeder-1''), (''action'', JStr ''open''),
           (''timestamp'', JNum 2024)]"

definition config_body :: json where
  "config_body =
     JObj [(''device_id'', JStr ''feeder-1''), (''feeding_times'', JArr [JStr ''12:00'']),
           (''duration_minutes'', JNum 30)]"

text \<open>The same configuration with the duration as a text, and one with half a minute.\<close>

definition text_config_body :: json where
  "text_config_body =
     JObj [(''device_id'', JStr ''feeder-1''), (''feeding_times'', JArr [JStr ''12:00'']),
           (''duration_minutes'', JStr ''30'')]"

definition half_config_body :: json where
  "half_config_body =
     JObj [(''device_id'', JStr ''feeder-1''), (''feeding_times'', JArr [JStr ''12:00'']),
           (''duration_minutes'', JNum (61 / 2))]"

text \<open>A row of the \<open>device_configs\<close> table for a device the registry does not know.\<close>

definition db_only_row :: device_config_row where
  "db_only_row =
     \<lparr>dc_device_id = ''feeder-2'', dc_feeding_times = [''12:00''], dc_duration_minutes = 30,
      dc_created_at = 0, dc_updated_at = 0\<rparr>"

text \<open>Seven ticks, one a minute from 12:00:00 to 12:06:00.\<close>

definition seven_ticks :: "(env \<times> operation) list" where
  "seven_ticks =
     [(env_at 0, CronTick), (env_at 60000, CronTick), (env_at 120000, CronTick),
      (env_at 180000, CronTick), (env_at 240000, CronTick), (env_at 300000, CronTick),
      (env_at 360000, CronTick)]"



text \<open>A state in which the log already holds one \<open>open\<close> event, stamped 11:57.\<close>

definition server2 :: server where
  "server2 =
     \<lparr>deviceConfigs = [(''feeder-1'', cfg12)],
      db = empty_db\<lparr>feeding_logs :=
             [\<lparr>fl_id = 1, fl_device_id = ''feeder-1'', fl_action = ''open'',
               fl_timestamp = 1704110220000, fl_details = JObj [],
               fl_created_at = 1704110220000\<rparr>],
           feeding_logs_id_seq := 1\<rparr>\<rparr>"

section \<open>Two notions in the words of the specification\<close>

text \<open>
  The specification calls \<open>scheduled_time\<close> the instant the feeding was due: the matched
  time of day on that date at minute resolution. For a tick whose local clock reads
  \<open>currentTime\<close>, that is the instant at which the host-local minute began.
\<close>

definition scheduled_instant :: "env \<Rightarrow> int" where
  "scheduled_instant e = now e - (now e + tza e) mod 60000"

text \<open>
  The specification's tolerance window: an \<open>open\<close> event of the device whose timestamp
  lies in \<open>[due, due + grace]\<close>.
\<close>

definition spec_open_in_window :: "feeding_log_row list \<Rightarrow> string \<Rightarrow> int \<Rightarrow> int \<Rightarrow> bool" where
  "spec_open_in_window logs dev due grace =
     list_ex (\<lambda>r. fl_device_id r = dev \<and> fl_action r = ''open'' \<and>
                  due \<le> fl_timestamp r \<and> fl_timestamp r \<le> due + grace) logs"

section \<open>Properties\<close>

subsection \<open>Arithmetic of the local clock\<close>

lemma mod_1440_split: "(m::int) mod 1440 = 60 * (m div 60 mod 24) + m mod 60"
  using zmod_zmult2_eq [of 24 m 60] by simp

lemma hour_of_minute_of_day: "((m::int) div 60) mod 24 = (m mod 1440) div 60"
  unfolding mod_1440_split by simp

lemma minute_of_minute_of_day: "(m::int) mod 60 = (m mod 1440) mod 60"
  unfolding mod_1440_split by simp

lemma hour_via_minutes: "(x::int) div 3600000 = (x div 60000) div 60"
  by (simp add: zdiv_zmult2_eq [symmetric])

lemma env0_fields:
  "now env0 = 1704110400000" "tza env0 = 0" "db_now env0 = 1704110400000" "db_up env0"
  "rejects env0 st ps = False"
  "is_iso_date env0 v = (v = JStr ''2024-01-01T11:57:00Z'' \<or> v = JNum 2024)"
  "number_of_text env0 t = (if t = ''30'' then Inr 30 else Inl ''number.base'')"
  "pg_timestamp env0 v = (if v = JStr ''2024-01-01T11:57:00Z'' then Some 1704110220000 else None)"
  "pg_integer env0 t = (if t = ''30'' then Some 30 else None)"
  by (simp_all add: env0_def)

lemma env_kst_fields:
  "now env_kst = 1704110400000" "tza env_kst = 32400000" "db_now env_kst = 1704110400000"
  "db_up env_kst" "rejects env_kst st ps = False"
  by (simp_all add: env_kst_def env0_def)

lemma env_down_fields:
  "now env_down = 1704110400000" "tza env_down = 0" "db_now env_down = 1704110400000"
  "\<not> db_up env_down"
  "is_iso_date env_down v = (v = JStr ''2024-01-01T11:57:00Z'' \<or> v = JNum 2024)"
  "number_of_text env_down t = (if t = ''30'' then Inr 30 else Inl ''number.base'')"
  by (simp_all add: env_down_def env0_def)

lemma currentTime_env0: "currentTime env0 = ''12:00''"
  by (simp add: currentTime_def getHours_def getMinutes_def padStart_def env0_fields
      digits.simps)

lemma currentTime_env_kst: "currentTime env_kst = ''21:00''"
  by (simp add: currentTime_def getHours_def getMinutes_def padStart_def env_kst_fields
      digits.simps)


subsection \<open>The store's statements and the loop of the check\<close>

lemma has_incident_key: "has_incident d dev t = ((dev, t) \<in> set (map mf_key (missed_feedings d)))"
  by (auto simp: has_incident_def list_ex_iff mf_key_def)

lemma varchar_short: "length s \<le> n \<Longrightarrow> varchar n s = Inr s"
  by (simp add: varchar_def)

lemma varchar_Inr_length: "varchar n s = Inr v \<Longrightarrow> length v \<le> n \<and> v = take n s"
  by (auto simp: varchar_def split: if_splits)

lemma insert_missed_feeding_Inr:
  assumes "insert_missed_feeding e dev t d = Inr d1"
  shows "\<exists>stored. varchar 100 dev = Inr stored \<and>
           \<not> pool_query_fails e InsertMissedFeeding [PText dev, PDate t] \<and>
           d1 = (if has_incident d stored t
                 then d\<lparr>missed_feedings_id_seq := Suc (missed_feedings_id_seq d)\<rparr>
                 else d\<lparr>missed_feedings := missed_feedings d @
                        [\<lparr>mf_id = Suc (missed_feedings_id_seq d), mf_device_id = stored,
                          mf_scheduled_time = t, mf_detected_at = db_now e,
                          mf_resolved = False\<rparr>],
                      missed_feedings_id_seq := Suc (missed_feedings_id_seq d)\<rparr>)"
  using assms by (auto simp: insert_missed_feeding_def split: if_splits sum.splits)

lemma insert_missed_feeding_frame:
  assumes "insert_missed_feeding e dev t d = Inr d1"
  shows "feeding_logs d1 = feeding_logs d \<and> device_configs d1 = device_configs d \<and>
         feeding_logs_id_seq d1 = feeding_logs_id_seq d"
  using insert_missed_feeding_Inr [OF assms] by (auto split: if_splits)

lemma insert_missed_feeding_rows:
  assumes "insert_missed_feeding e dev t d = Inr d1"
  shows "\<exists>stored. varchar 100 dev = Inr stored \<and>
           missed_feedings d1 =
             missed_feedings d @
               (if has_incident d stored t then []
                else [\<lparr>mf_id = Suc (missed_feedings_id_seq d), mf_device_id = stored,
                       mf_scheduled_time = t, mf_detected_at = db_now e, mf_resolved = False\<rparr>])"
proof -
  obtain stored where s: "varchar 100 dev = Inr stored"
    and d1: "d1 = (if has_incident d stored t
                 then d\<lparr>missed_feedings_id_seq := Suc (missed_feedings_id_seq d)\<rparr>
                 else d\<lparr>missed_feedings := missed_feedings d @
                        [\<lparr>mf_id = Suc (missed_feedings_id_seq d), mf_device_id = stored,
                          mf_scheduled_time = t, mf_detected_at = db_now e,
                          mf_resolved = False\<rparr>],
                      missed_feedings_id_seq := Suc (missed_feedings_id_seq d)\<rparr>)"
    using insert_missed_feeding_Inr [OF assms] by blast
  show ?thesis by (rule exI [of _ stored]) (simp add: s d1)
qed

lemma insert_missed_feeding_distinct:
  assumes "insert_missed_feeding e dev t d = Inr d1"
    and "distinct (map mf_key (missed_feedings d))"
  shows "distinct (map mf_key (missed_feedings d1))"
  using insert_missed_feeding_rows [OF assms(1)] assms(2)
  by (auto simp: has_incident_key mf_key_def)

lemma check_devices_frame:
  "check_devices e ct cfgs lg d = (x, lg', d') \<Longrightarrow>
   feeding_logs d' = feeding_logs d \<and> device_configs d' = device_configs d \<and>
   feeding_logs_id_seq d' = feeding_logs_id_seq d"
proof (induction cfgs arbitrary: lg d)
  case Nil
  then show ?case by simp
next
  case (Cons p rest)
  obtain dev cfg where p: "p = (dev, cfg)" by (cases p)
  from Cons.prems show ?case
    unfolding p
    by (auto simp: count_open_feedings_def split: if_splits sum.splits
        dest!: Cons.IH dest: insert_missed_feeding_frame)
qed

lemma check_devices_distinct:
  "check_devices e ct cfgs lg d = (x, lg', d') \<Longrightarrow>
   distinct (map mf_key (missed_feedings d)) \<Longrightarrow>
   distinct (map mf_key (missed_feedings d'))"
proof (induction cfgs arbitrary: lg d)
  case Nil
  then show ?case by simp
next
  case (Cons p rest)
  obtain dev cfg where p: "p = (dev, cfg)" by (cases p)
  from Cons.prems show ?case
    unfolding p
    by (auto simp: count_open_feedings_def split: if_splits sum.splits
        dest: insert_missed_feeding_distinct Cons.IH)
qed

lemma has_incident_append:
  "missed_feedings d' = missed_feedings d @ new \<Longrightarrow>
   has_incident d' dev t = (has_incident d dev t \<or> (dev, t) \<in> set (map mf_key new))"
  by (auto simp: has_incident_key)


lemma check_devices_rows:
  "check_devices e ct cfgs lg d = (x, lg', d') \<Longrightarrow>
   \<exists>new. missed_feedings d' = missed_feedings d @ new \<and>
     (\<forall>r \<in> set new.
        mf_scheduled_time r = now e \<and> mf_detected_at r = db_now e \<and> \<not> mf_resolved r \<and>
        (\<exists>p \<in> set cfgs. List.member (feeding_times (snd p)) ct \<and>
           varchar 100 (fst p) = Inr (mf_device_id r) \<and>
           filter (is_recent_open e (fst p)) (feeding_logs d) = []))"
proof (induction cfgs arbitrary: lg d)
  case Nil
  then show ?case by simp
next
  case (Cons p rest)
  obtain dev cfg where p: "p = (dev, cfg)" by (cases p)
  let ?P = "\<lambda>cs d0 new. \<forall>r \<in> set new.
        mf_scheduled_time r = now e \<and> mf_detected_at r = db_now e \<and> \<not> mf_resolved r \<and>
        (\<exists>p \<in> set cs. List.member (feeding_times (snd p)) ct \<and>
           varchar 100 (fst p) = Inr (mf_device_id r) \<and>
           filter (is_recent_open e (fst p)) (feeding_logs d0) = [])"
  have weaken: "\<And>d0 new. ?P rest d0 new \<Longrightarrow> ?P (p # rest) d0 new"
    by auto
  show ?case
  proof (cases "List.member (feeding_times cfg) ct")
    case False
    with Cons.prems have "check_devices e ct rest lg d = (x, lg', d')"
      by (simp add: p)
    from Cons.IH [OF this] weaken show ?thesis by blast
  next
    case m: True
    show ?thesis
    proof (cases "count_open_feedings e dev d")
      case (Inl a)
      with Cons.prems m have "d' = d" by (simp add: p)
      then show ?thesis by simp
    next
      case (Inr n)
      then have n: "n = length (filter (is_recent_open e dev) (feeding_logs d))"
        by (auto simp: count_open_feedings_def split: if_splits)
      show ?thesis
      proof (cases "n = 0")
        case False
        with Cons.prems m Inr have "check_devices e ct rest lg d = (x, lg', d')"
          by (simp add: p)
        from Cons.IH [OF this] weaken show ?thesis by blast
      next
        case z: True
        show ?thesis
        proof (cases "insert_missed_feeding e dev (now e) d")
          case (Inl a)
          with Cons.prems m Inr z have "d' = d" by (simp add: p)
          then show ?thesis by simp
        next
          case ins: (Inr d1)
          with Cons.prems m Inr z obtain lg1 where
            run: "check_devices e ct rest lg1 d1 = (x, lg', d')"
            by (simp add: p)
          from Cons.IH [OF run] obtain new1 where
            new1: "missed_feedings d' = missed_feedings d1 @ new1" and P1: "?P rest d1 new1"
            by blast
          have fl: "feeding_logs d1 = feeding_logs d"
            using insert_missed_feeding_frame [OF ins] by simp
          from insert_missed_feeding_rows [OF ins] obtain stored where
            st: "varchar 100 dev = Inr stored" and
            rows: "missed_feedings d1 = missed_feedings d @
               (if has_incident d stored (now e) then []
                else [\<lparr>mf_id = Suc (missed_feedings_id_seq d), mf_device_id = stored,
                       mf_scheduled_time = now e, mf_detected_at = db_now e,
                       mf_resolved = False\<rparr>])"
            by blast
          let ?new0 = "(if has_incident d stored (now e) then []
                else [\<lparr>mf_id = Suc (missed_feedings_id_seq d), mf_device_id = stored,
                       mf_scheduled_time = now e, mf_detected_at = db_now e,
                       mf_resolved = False\<rparr>])"
          have P0: "?P (p # rest) d ?new0"
            using st m z n by (simp add: p)
          have P1': "?P (p # rest) d new1"
            using weaken [OF P1] by (simp add: fl)
          have "missed_feedings d' = missed_feedings d @ (?new0 @ new1)"
            using new1 rows by simp
          moreover have "?P (p # rest) d (?new0 @ new1)"
            using P0 P1' by (simp add: ball_Un)
          ultimately show ?thesis by blast
        qed
      qed
    qed
  qed
qed

lemma insert_missed_feeding_incident:
  assumes "insert_missed_feeding e dev t d = Inr d1" and "length dev \<le> 100"
  shows "has_incident d1 dev' t' = (has_incident d dev' t' \<or> (dev' = dev \<and> t' = t))"
proof -
  from insert_missed_feeding_rows [OF assms(1)] assms(2) have
    rows: "missed_feedings d1 = missed_feedings d @
               (if has_incident d dev t then []
                else [\<lparr>mf_id = Suc (missed_feedings_id_seq d), mf_device_id = dev,
                       mf_scheduled_time = t, mf_detected_at = db_now e, mf_resolved = False\<rparr>])"
    by (auto simp: varchar_short)
  show ?thesis
    unfolding has_incident_append [OF rows]
    by (auto simp: mf_key_def)
qed

lemma check_devices_decides:
  assumes "check_devices e ct cfgs lg d = (None, lg', d')"
    and "\<forall>p \<in> set cfgs. length (fst p) \<le> 100"
  shows "has_incident d' dev t =
         (has_incident d dev t \<or>
          (t = now e \<and> (\<exists>cfg. (dev, cfg) \<in> set cfgs \<and> List.member (feeding_times cfg) ct) \<and>
           filter (is_recent_open e dev) (feeding_logs d) = []))"
  using assms
proof (induction cfgs arbitrary: lg d)
  case Nil
  then show ?case by simp
next
  case (Cons p rest)
  obtain dev0 cfg0 where p: "p = (dev0, cfg0)" by (cases p)
  from Cons.prems(2) have len0: "length dev0 \<le> 100"
    and lens: "\<forall>p \<in> set rest. length (fst p) \<le> 100"
    by (simp_all add: p)
  show ?case
  proof (cases "List.member (feeding_times cfg0) ct")
    case False
    with Cons.prems(1) have "check_devices e ct rest lg d = (None, lg', d')"
      by (simp add: p)
    from Cons.IH [OF this lens] False show ?thesis
      by (auto simp: p)
  next
    case m: True
    from Cons.prems(1) m obtain n where cnt: "count_open_feedings e dev0 d = Inr n"
      by (cases "count_open_feedings e dev0 d") (simp_all add: p)
    then have n: "n = length (filter (is_recent_open e dev0) (feeding_logs d))"
      by (auto simp: count_open_feedings_def split: if_splits)
    show ?thesis
    proof (cases "n = 0")
      case False
      with Cons.prems(1) m cnt have "check_devices e ct rest lg d = (None, lg', d')"
        by (simp add: p)
      from Cons.IH [OF this lens] False n show ?thesis
        by (auto simp: p)
    next
      case z: True
      from Cons.prems(1) m cnt z obtain d1 where
        ins: "insert_missed_feeding e dev0 (now e) d = Inr d1"
        by (cases "insert_missed_feeding e dev0 (now e) d") (simp_all add: p)
      with Cons.prems(1) m cnt z obtain lg1 where
        run: "check_devices e ct rest lg1 d1 = (None, lg', d')"
        by (simp add: p)
      have fl: "feeding_logs d1 = feeding_logs d"
        using insert_missed_feeding_frame [OF ins] by simp
      have z': "filter (is_recent_open e dev0) (feeding_logs d) = []"
        using z n by simp
      show ?thesis
        unfolding Cons.IH [OF run lens] insert_missed_feeding_incident [OF ins len0] fl
        using m z' by (auto simp: p)
    qed
  qed
qed

lemma check_devices_rerun:
  assumes "check_devices e ct cfgs lg d = (x, lg', d')"
    and "feeding_logs d2 = feeding_logs d"
    and "\<forall>dev. has_incident d' dev (now e) \<longrightarrow> has_incident d2 dev (now e)"
    and "check_devices e ct cfgs lg2 d2 = (x2, lg2', d2')"
  shows "missed_feedings d2' = missed_feedings d2"
  using assms
proof (induction cfgs arbitrary: lg d lg2 d2)
  case Nil
  then show ?case by simp
next
  case (Cons p rest)
  obtain dev cfg where p: "p = (dev, cfg)" by (cases p)
  show ?case
  proof (cases "List.member (feeding_times cfg) ct")
    case False
    with Cons.prems have "check_devices e ct rest lg d = (x, lg', d')"
      "check_devices e ct rest lg2 d2 = (x2, lg2', d2')"
      by (simp_all add: p)
    from Cons.IH [OF this(1) Cons.prems(2,3) this(2)] show ?thesis .
  next
    case m: True
    have same_count: "count_open_feedings e dev d2 = count_open_feedings e dev d"
      by (simp add: count_open_feedings_def Cons.prems(2))
    show ?thesis
    proof (cases "count_open_feedings e dev d")
      case (Inl a)
      with Cons.prems(4) m same_count have "d2' = d2" by (simp add: p)
      then show ?thesis by simp
    next
      case (Inr n)
      show ?thesis
      proof (cases "n = 0")
        case False
        with Cons.prems m Inr same_count have "check_devices e ct rest lg d = (x, lg', d')"
          "check_devices e ct rest lg2 d2 = (x2, lg2', d2')"
          by (simp_all add: p)
        from Cons.IH [OF this(1) Cons.prems(2,3) this(2)] show ?thesis .
      next
        case z: True
        show ?thesis
        proof (cases "insert_missed_feeding e dev (now e) d")
          case (Inl a)
          then have "\<exists>b. insert_missed_feeding e dev (now e) d2 = Inl b"
            by (auto simp: insert_missed_feeding_def split: if_splits sum.splits)
          with Cons.prems(4) m Inr z same_count have "d2' = d2" by (auto simp: p)
          then show ?thesis by simp
        next
          case ins: (Inr d1)
          with Cons.prems(1) m Inr z obtain lg1 where
            run1: "check_devices e ct rest lg1 d1 = (x, lg', d')"
            by (simp add: p)
          from insert_missed_feeding_Inr [OF ins] obtain stored where
            st: "varchar 100 dev = Inr stored" and
            ok: "\<not> pool_query_fails e InsertMissedFeeding [PText dev, PDate (now e)]"
            by blast
          from insert_missed_feeding_rows [OF ins] st have "has_incident d1 stored (now e)"
            by (auto simp: has_incident_key mf_key_def)
          moreover from check_devices_rows [OF run1] obtain new1 where
            "missed_feedings d' = missed_feedings d1 @ new1" by blast
          ultimately have "has_incident d' stored (now e)"
            by (simp add: has_incident_append)
          with Cons.prems(3) have inc2: "has_incident d2 stored (now e)" by blast
          define d2a where "d2a = d2\<lparr>missed_feedings_id_seq := Suc (missed_feedings_id_seq d2)\<rparr>"
          have ins2: "insert_missed_feeding e dev (now e) d2 = Inr d2a"
            by (simp add: insert_missed_feeding_def st ok inc2 d2a_def)
          with Cons.prems(4) m Inr z same_count obtain lg2a where
            run2: "check_devices e ct rest lg2a d2a = (x2, lg2', d2')"
            by (simp add: p)
          have fl: "feeding_logs d2a = feeding_logs d1"
            using insert_missed_feeding_frame [OF ins] Cons.prems(2) by (simp add: d2a_def)
          have inc: "\<forall>dev. has_incident d' dev (now e) \<longrightarrow> has_incident d2a dev (now e)"
            using Cons.prems(3) by (simp add: d2a_def has_incident_def)
          from Cons.IH [OF run1 fl inc run2] show ?thesis by (simp add: d2a_def)
        qed
      qed
    qed
  qed
qed

lemma check_devices_completes:
  assumes "db_up e"
    and "\<forall>p \<in> set cfgs. length (fst p) \<le> 100 \<and> \<not> rejects e CountOpenFeedings [PText (fst p)] \<and>
           \<not> rejects e InsertMissedFeeding [PText (fst p), PDate (now e)]"
  shows "fst (check_devices e ct cfgs lg d) = None"
  using assms(2)
proof (induction cfgs arbitrary: lg d)
  case Nil
  then show ?case by simp
next
  case (Cons p rest)
  obtain dev cfg where p: "p = (dev, cfg)" by (cases p)
  from Cons.prems have h: "length dev \<le> 100" "\<not> rejects e CountOpenFeedings [PText dev]"
    "\<not> rejects e InsertMissedFeeding [PText dev, PDate (now e)]"
    and rest: "\<forall>p \<in> set rest. length (fst p) \<le> 100 \<and> \<not> rejects e CountOpenFeedings [PText (fst p)] \<and>
           \<not> rejects e InsertMissedFeeding [PText (fst p), PDate (now e)]"
    by (simp_all add: p)
  have c: "count_open_feedings e dev d =
           Inr (length (filter (is_recent_open e dev) (feeding_logs d)))"
    using assms(1) h by (simp add: count_open_feedings_def pool_query_fails_def)
  have "\<exists>d1. insert_missed_feeding e dev (now e) d = Inr d1"
    using assms(1) h by (simp add: insert_missed_feeding_def pool_query_fails_def varchar_short)
  then obtain d1 where i: "insert_missed_feeding e dev (now e) d = Inr d1" ..
  show ?case
    unfolding p by (simp add: c i Cons.IH [OF rest])
qed

lemma check_devices_no_match:
  "\<not> list_ex (\<lambda>p. List.member (feeding_times (snd p)) ct) cfgs \<Longrightarrow>
   check_devices e ct cfgs lg d = (None, lg, d)"
proof (induction cfgs)
  case Nil
  then show ?case by simp
next
  case (Cons p rest)
  obtain dev cfg where p: "p = (dev, cfg)" by (cases p)
  from Cons show ?case by (simp add: p)
qed

subsection \<open>The callback and the handlers as steps\<close>

declare step.simps [simp del]

lemma tick_deviceConfigs: "deviceConfigs (step e CronTick s) = deviceConfigs s"
  by (simp add: step.simps cron_tick_def split: prod.splits option.splits)

lemma tick_db:
  "db (step e CronTick s) =
   snd (snd (check_devices e (currentTime e) (deviceConfigs s) [] (db s)))"
  by (simp add: step.simps cron_tick_def split: prod.splits option.splits)





lemma handle_missed_feedings:
  "missed_feedings (db (snd (snd (handle e r s)))) = missed_feedings (db s)"
  by (cases r)
    (auto simp: get_health_def post_device_config_def post_feeding_log_def
      get_feeding_logs_def get_feeding_missed_def get_stats_def Let_def
      upsert_device_config_def insert_feeding_log_def
      split: option.splits sum.splits if_splits)

lemma handle_feeding_logs:
  "\<exists>new. feeding_logs (db (snd (snd (handle e r s)))) = feeding_logs (db s) @ new"
  by (cases r)
    (auto simp: get_health_def post_device_config_def post_feeding_log_def
      get_feeding_logs_def get_feeding_missed_def get_stats_def Let_def
      upsert_device_config_def insert_feeding_log_def
      split: option.splits sum.splits if_splits)

lemma tick_feeding_logs: "feeding_logs (db (step e CronTick s)) = feeding_logs (db s)"
  unfolding tick_db
  using check_devices_frame [of e "currentTime e" "deviceConfigs s" "[]" "db s"]
  by (cases "check_devices e (currentTime e) (deviceConfigs s) [] (db s)") auto

lemma tick_distinct:
  "distinct (map mf_key (missed_feedings (db s))) \<Longrightarrow>
   distinct (map mf_key (missed_feedings (db (step e CronTick s))))"
  unfolding tick_db
  using check_devices_distinct [of e "currentTime e" "deviceConfigs s" "[]" "db s"]
  by (cases "check_devices e (currentTime e) (deviceConfigs s) [] (db s)") auto

lemma step_distinct:
  "distinct (map mf_key (missed_feedings (db s))) \<Longrightarrow>
   distinct (map mf_key (missed_feedings (db (step e op s))))"
proof (cases op)
  case (Request r)
  assume "distinct (map mf_key (missed_feedings (db s)))"
  then show ?thesis by (simp add: Request step.simps handle_missed_feedings)
next
  case CronTick
  assume "distinct (map mf_key (missed_feedings (db s)))"
  then show ?thesis unfolding CronTick by (rule tick_distinct)
qed

lemma run_distinct:
  "distinct (map mf_key (missed_feedings (db s))) \<Longrightarrow>
   distinct (map mf_key (missed_feedings (db (run ops s))))"
proof (induction ops arbitrary: s)
  case Nil
  then show ?case by simp
next
  case (Cons p ops)
  obtain e op where p: "p = (e, op)" by (cases p)
  from Cons show ?case by (simp add: p step_distinct)
qed

lemma tick_rerun:
  assumes "deviceConfigs s2 = deviceConfigs s"
    and "feeding_logs (db s2) = feeding_logs (db s)"
    and "missed_feedings (db s2) = missed_feedings (db (step e CronTick s))"
  shows "missed_feedings (db (step e CronTick s2)) = missed_feedings (db s2)"
proof -
  obtain x lg d' where r1: "check_devices e (currentTime e) (deviceConfigs s) [] (db s) = (x, lg, d')"
    by (cases "check_devices e (currentTime e) (deviceConfigs s) [] (db s)")
  obtain x2 lg2 d2' where
    r2: "check_devices e (currentTime e) (deviceConfigs s) [] (db s2) = (x2, lg2, d2')"
    by (cases "check_devices e (currentTime e) (deviceConfigs s) [] (db s2)")
  have "missed_feedings (db s2) = missed_feedings d'"
    using assms(3) r1 by (simp add: tick_db)
  then have inc: "\<forall>dev. has_incident d' dev (now e) \<longrightarrow> has_incident (db s2) dev (now e)"
    by (simp add: has_incident_def)
  from check_devices_rerun [OF r1 assms(2) inc r2] show ?thesis
    by (simp add: tick_db assms(1) r2)
qed

lemma tick_repeat_state:
  "deviceConfigs (((step e CronTick) ^^ Suc n) s) = deviceConfigs s \<and>
   feeding_logs (db (((step e CronTick) ^^ Suc n) s)) = feeding_logs (db s) \<and>
   missed_feedings (db (((step e CronTick) ^^ Suc n) s)) =
     missed_feedings (db (step e CronTick s))"
proof (induction n)
  case 0
  then show ?case by (simp add: tick_deviceConfigs tick_feeding_logs)
next
  case (Suc n)
  let ?s2 = "((step e CronTick) ^^ Suc n) s"
  from Suc have a: "deviceConfigs ?s2 = deviceConfigs s"
    and b: "feeding_logs (db ?s2) = feeding_logs (db s)"
    and c: "missed_feedings (db ?s2) = missed_feedings (db (step e CronTick s))"
    by blast+
  have "missed_feedings (db (step e CronTick ?s2)) = missed_feedings (db ?s2)"
    by (rule tick_rerun [OF a b c])
  then show ?case
    using a b c by (simp add: tick_deviceConfigs tick_feeding_logs)
qed

lemma check_devices_present:
  assumes "check_devices e ct cfgs lg d = (x, lg', d')"
    and "\<forall>p \<in> set cfgs. \<forall>stored. varchar 100 (fst p) = Inr stored \<longrightarrow> has_incident d stored (now e)"
  shows "missed_feedings d' = missed_feedings d"
  using assms
proof (induction cfgs arbitrary: lg d)
  case Nil
  then show ?case by simp
next
  case (Cons p rest)
  obtain dev cfg where p: "p = (dev, cfg)" by (cases p)
  have rest: "\<And>d1. missed_feedings d1 = missed_feedings d \<Longrightarrow>
     \<forall>p \<in> set rest. \<forall>stored. varchar 100 (fst p) = Inr stored \<longrightarrow> has_incident d1 stored (now e)"
    using Cons.prems(2) by (simp add: has_incident_def)
  show ?case
  proof (cases "List.member (feeding_times cfg) ct \<and> count_open_feedings e dev d = Inr 0")
    case False
    then consider "check_devices e ct rest lg d = (x, lg', d')" | "d' = d"
      using Cons.prems(1) by (auto simp: p split: sum.splits if_splits)
    then show ?thesis
    proof cases
      case 1
      from Cons.IH [OF 1 rest] show ?thesis by simp
    next
      case 2
      then show ?thesis by simp
    qed
  next
    case True
    show ?thesis
    proof (cases "insert_missed_feeding e dev (now e) d")
      case (Inl a)
      with Cons.prems(1) True have "d' = d" by (simp add: p)
      then show ?thesis by simp
    next
      case ins: (Inr d1)
      from insert_missed_feeding_rows [OF ins] Cons.prems(2)
      have same: "missed_feedings d1 = missed_feedings d"
        by (auto simp: p)
      from Cons.prems(1) True ins obtain lg1 where
        run: "check_devices e ct rest lg1 d1 = (x, lg', d')"
        by (simp add: p)
      from Cons.IH [OF run rest [OF same]] same show ?thesis by simp
    qed
  qed
qed

lemma run_feeding_logs:
  "\<exists>new. feeding_logs (db (run ops s)) = feeding_logs (db s) @ new"
proof (induction ops arbitrary: s)
  case Nil
  then show ?case by simp
next
  case (Cons p ops)
  obtain e op where p: "p = (e, op)" by (cases p)
  have "\<exists>new. feeding_logs (db (step e op s)) = feeding_logs (db s) @ new"
  proof (cases op)
    case (Request r)
    then show ?thesis by (simp add: step.simps handle_feeding_logs)
  next
    case CronTick
    then show ?thesis by (simp add: tick_feeding_logs)
  qed
  then obtain n1 where n1: "feeding_logs (db (step e op s)) = feeding_logs (db s) @ n1" ..
  from Cons.IH [of "step e op s"] obtain n2 where
    "feeding_logs (db (run ops (step e op s))) = feeding_logs (db (step e op s)) @ n2" ..
  with n1 show ?case by (simp add: p)
qed

subsection \<open>The worked inputs, evaluated\<close>

lemma env_at_fields:
  "now (env_at k) = 1704110400000 + k" "tza (env_at k) = 0"
  "db_now (env_at k) = 1704110400000 + k" "db_up (env_at k)"
  "rejects (env_at k) st ps = False"
  by (simp_all add: env_at_def env0_def)

lemma tick_env0_server1:
  "step env0 CronTick server1 =
   \<lparr>deviceConfigs = [(''feeder-1'', cfg12)],
    db = \<lparr>device_configs = [], feeding_logs = [],
          missed_feedings =
            [\<lparr>mf_id = 1, mf_device_id = ''feeder-1'', mf_scheduled_time = 1704110400000,
              mf_detected_at = 1704110400000, mf_resolved = False\<rparr>],
          feeding_logs_id_seq = 0, missed_feedings_id_seq = 1\<rparr>\<rparr>"
  by (simp add: step.simps currentTime_env0 cfg12_def cron_tick_def server1_def
      count_open_feedings_def insert_missed_feeding_def pool_query_fails_def varchar_def
      has_incident_def empty_db_def env0_fields)

lemma validate_open_body: "validate env0 feedingLogSchema open_body = None"
  by (simp add: validate_def feedingLogSchema_def open_body_def env0_fields)

lemma validate_config_body: "validate env0 configUpdateSchema config_body = None"
  by (simp add: validate_def configUpdateSchema_def config_body_def joi_number_def)

lemma validate_config_body_down: "validate env_down configUpdateSchema config_body = None"
  by (simp add: validate_def configUpdateSchema_def config_body_def joi_number_def)

lemma currentTime_cong:
  assumes "((now e1 + tza e1) div 60000) mod 1440 = ((now e2 + tza e2) div 60000) mod 1440"
  shows "currentTime e1 = currentTime e2"
proof -
  have "getHours e1 = getHours e2"
    unfolding getHours_def hour_via_minutes hour_of_minute_of_day using assms by simp
  moreover have "getMinutes e1 = getMinutes e2"
    unfolding getMinutes_def using assms minute_of_minute_of_day by metis
  ultimately show ?thesis
    unfolding currentTime_def by simp
qed

lemma scheduled_instant_minute:
  "currentTime (e\<lparr>now := scheduled_instant e\<rparr>) = currentTime e"
proof (rule currentTime_cong)
  have "scheduled_instant e + tza e = 60000 * ((now e + tza e) div 60000)"
    unfolding scheduled_instant_def by (simp add: minus_mod_eq_mult_div algebra_simps)
  then show "(now (e\<lparr>now := scheduled_instant e\<rparr>) + tza (e\<lparr>now := scheduled_instant e\<rparr>)) div 60000 mod 1440 =
        (now e + tza e) div 60000 mod 1440"
    by simp
qed

lemma tick_env0_twice:
  "step env0 CronTick (step env0 CronTick server1) =
   \<lparr>deviceConfigs = [(''feeder-1'', cfg12)],
    db = \<lparr>device_configs = [], feeding_logs = [],
          missed_feedings =
            [\<lparr>mf_id = 1, mf_device_id = ''feeder-1'', mf_scheduled_time = 1704110400000,
              mf_detected_at = 1704110400000, mf_resolved = False\<rparr>],
          feeding_logs_id_seq = 0, missed_feedings_id_seq = 2\<rparr>\<rparr>"
  unfolding tick_env0_server1
  by (simp add: step.simps currentTime_env0 cfg12_def cron_tick_def
      count_open_feedings_def insert_missed_feeding_def pool_query_fails_def varchar_def
      has_incident_def env0_fields)

lemma post_open_body_server2:
  "step env0 (Request (PostFeedingLog open_body)) server2 =
     server2\<lparr>db := (db server2)\<lparr>feeding_logs := feeding_logs (db server2) @
        [\<lparr>fl_id = 2, fl_device_id = ''feeder-1'', fl_action = ''open'',
          fl_timestamp = 1704110220000, fl_details = JObj [(''duration'', JNum 30)],
          fl_created_at = 1704110400000\<rparr>],
        feeding_logs_id_seq := 2\<rparr>\<rparr>"
  by (simp add: step.simps post_feeding_log_def validate_open_body Let_def)
     (simp add: open_body_def insert_feeding_log_def pool_query_fails_def env0_fields
        varchar_def server2_def empty_db_def)

lemma tick_no_match:
  "\<not> list_ex (\<lambda>p. List.member (feeding_times (snd p)) (currentTime e)) (deviceConfigs s) \<Longrightarrow>
   step e CronTick s = s"
  by (simp add: step.simps cron_tick_def check_devices_no_match)

lemma currentTime_env_at:
  "currentTime (env_at 0) = ''12:00''"
  "currentTime (env_at 60000) = ''12:01''"
  "currentTime (env_at 120000) = ''12:02''"
  "currentTime (env_at 180000) = ''12:03''"
  "currentTime (env_at 240000) = ''12:04''"
  "currentTime (env_at 300000) = ''12:05''"
  "currentTime (env_at 360000) = ''12:06''"
  by (simp_all add: currentTime_def getHours_def getMinutes_def padStart_def env_at_fields
      digits.simps)

lemma tick_later_no_match:
  assumes "map fst (deviceConfigs s) = [''feeder-1'']"
    and "map (feeding_times \<circ> snd) (deviceConfigs s) = [[''12:00'']]"
  shows "step (env_at 60000) CronTick s = s" "step (env_at 120000) CronTick s = s"
    "step (env_at 180000) CronTick s = s" "step (env_at 240000) CronTick s = s"
    "step (env_at 300000) CronTick s = s" "step (env_at 360000) CronTick s = s"
proof -
  from assms(2) obtain p where p: "deviceConfigs s = [p]" "feeding_times (snd p) = [''12:00'']"
    by (cases "deviceConfigs s") auto
  show "step (env_at 60000) CronTick s = s" "step (env_at 120000) CronTick s = s"
    "step (env_at 180000) CronTick s = s" "step (env_at 240000) CronTick s = s"
    "step (env_at 300000) CronTick s = s" "step (env_at 360000) CronTick s = s"
    by (rule tick_no_match, simp add: p currentTime_env_at)+
qed

lemma tick_env_at_0_server1:
  "step (env_at 0) CronTick server1 =
   \<lparr>deviceConfigs = [(''feeder-1'', cfg12)],
    db = \<lparr>device_configs = [], feeding_logs = [],
          missed_feedings =
            [\<lparr>mf_id = 1, mf_device_id = ''feeder-1'', mf_scheduled_time = 1704110400000,
              mf_detected_at = 1704110400000, mf_resolved = False\<rparr>],
          feeding_logs_id_seq = 0, missed_feedings_id_seq = 1\<rparr>\<rparr>"
  by (simp add: step.simps currentTime_env_at cfg12_def cron_tick_def server1_def
      count_open_feedings_def insert_missed_feeding_def pool_query_fails_def varchar_def
      has_incident_def empty_db_def env_at_fields)

lemma tick_env_at_0_server2: "step (env_at 0) CronTick server2 = server2"
  by (simp add: step.simps currentTime_env_at cfg12_def cron_tick_def server2_def
      count_open_feedings_def is_recent_open_def pool_query_fails_def empty_db_def env_at_fields)

lemma seven_ticks_server1:
  "map mf_key (missed_feedings (db (run seven_ticks server1))) = [(''feeder-1'', 1704110400000)]"
  unfolding seven_ticks_def
  by (simp add: tick_env_at_0_server1 tick_later_no_match cfg12_def mf_key_def)

lemma seven_ticks_server2: "run seven_ticks server2 = server2"
proof -
  have a: "map fst (deviceConfigs server2) = [''feeder-1'']"
    and b: "map (feeding_times \<circ> snd) (deviceConfigs server2) = [[''12:00'']]"
    by (simp_all add: server2_def cfg12_def)
  show ?thesis
    unfolding seven_ticks_def
    by (simp only: run.simps tick_env_at_0_server2 tick_later_no_match [OF a b])
qed

subsection \<open>What the two schemas accept\<close>

lemma first_unknown_None:
  "((case xs of [] \<Rightarrow> None | k # x \<Rightarrow> Some (f k)) = None) = (xs = [])"
  by (cases xs) simp_all

lemma no_unknown_keys:
  "((case filter (\<lambda>k. k \<notin> S) (map fst kvs) of [] \<Rightarrow> None
      | k # x \<Rightarrow> Some (JoiError ''object.unknown'' k)) = None) =
   (fst ` set kvs \<subseteq> S)"
  unfolding first_unknown_None by (auto simp: filter_empty_conv)

lemma first_error_None: "(first_error xs = None) = (\<forall>x \<in> set xs. x = None)"
  by (induction xs rule: first_error.induct) auto

lemma validate_string_None:
  "(validate_value e JoiString path x = None) = (\<exists>t. x = JStr t \<and> t \<noteq> [])"
  by (cases x) auto

lemma validate_valid_None:
  "(validate_value e (JoiStringValid allowed) path x = None) =
   (\<exists>t. x = JStr t \<and> t \<in> set allowed)"
  by (cases x) auto

lemma validate_date_None:
  "(validate_value e JoiDateIso path x = None) =
   (((\<exists>t. x = JStr t) \<or> (\<exists>n. x = JNum n)) \<and> is_iso_date e x)"
  by (cases x) auto

lemma validate_object_None:
  "(validate_value e JoiObject path x = None) = (\<exists>kv. x = JObj kv)"
  by (cases x) auto

lemma validate_number_None:
  "(validate_value e (JoiNumberMinMax lo hi) path x = None) =
   (\<exists>n. joi_number e x = Inr n \<and> - 9007199254740991 \<le> n \<and> n \<le> 9007199254740991 \<and>
        lo \<le> n \<and> n \<le> hi)"
  by (cases "joi_number e x") auto

lemma validate_duration_None:
  "(validate_value e (JoiNumberMinMax 1 120) path x = None) =
   (\<exists>n. joi_number e x = Inr n \<and> 1 \<le> n \<and> n \<le> 120)"
  unfolding validate_number_None by auto

lemma validate_pattern_None:
  "(validate_value e (JoiStringPattern re) path x = None) = (\<exists>t. x = JStr t \<and> t \<noteq> [] \<and> re t)"
  by (cases x) auto

lemma validate_items_None:
  "(first_error (map (\<lambda>(i, x). validate_value e (JoiStringPattern re) (path i) x)
       (enumerate n xs)) = None) =
   (\<forall>x \<in> set xs. \<exists>t. x = JStr t \<and> t \<noteq> [] \<and> re t)"
proof (induction xs arbitrary: n)
  case Nil
  then show ?case by simp
next
  case (Cons a xs)
  have "(first_error (map (\<lambda>(i, x). validate_value e (JoiStringPattern re) (path i) x)
       (enumerate n (a # xs))) = None) =
       (validate_value e (JoiStringPattern re) (path n) a = None \<and>
        first_error (map (\<lambda>(i, x). validate_value e (JoiStringPattern re) (path i) x)
          (enumerate (Suc n) xs)) = None)"
    by (cases "validate_value e (JoiStringPattern re) (path n) a")
       (simp_all del: validate_value.simps)
  then show ?case
    unfolding Cons.IH validate_pattern_None by simp
qed

lemma validate_array_None:
  "(validate_value e (JoiArrayItems (JoiStringPattern re)) k v = None) =
   (\<exists>xs. v = JArr xs \<and> (\<forall>x \<in> set xs. \<exists>t. x = JStr t \<and> t \<noteq> [] \<and> re t))"
proof (cases v)
  case (JArr xs)
  have "validate_value e (JoiArrayItems (JoiStringPattern re)) k (JArr xs) =
        first_error (map (\<lambda>(i, x). validate_value e (JoiStringPattern re)
                            (k @ ''['' @ digits i @ '']'') x) (enumerate 0 xs))"
    by (simp only: validate_value.simps(7) json.case)
  then show ?thesis
    unfolding JArr
    using validate_items_None [where path = "\<lambda>i. k @ ''['' @ digits i @ '']''" and n = 0
        and e = e and re = re and xs = xs]
    by (simp del: validate_value.simps)
qed simp_all

lemma validate_keys_Required:
  "(validate_keys e ((k, t, Required) # ks) body = None) =
   ((\<exists>v. get_key k body = Some v \<and> validate_value e t k v = None) \<and>
    validate_keys e ks body = None)"
  by (auto simp del: validate_value.simps split: option.splits)

lemma validate_keys_Optional:
  "(validate_keys e ((k, t, Optional) # ks) body = None) =
   ((get_key k body = None \<or> (\<exists>v. get_key k body = Some v \<and> validate_value e t k v = None)) \<and>
    validate_keys e ks body = None)"
  by (auto simp del: validate_value.simps split: option.splits)

lemma time_pattern_nonempty: "time_pattern t \<Longrightarrow> t \<noteq> []"
  by auto

lemma validate_times_None:
  "(validate_value e (JoiArrayItems (JoiStringPattern time_pattern)) k v = None) =
   (\<exists>xs. v = JArr xs \<and> (\<forall>x \<in> set xs. \<exists>t. x = JStr t \<and> time_pattern t))"
  unfolding validate_array_None using time_pattern_nonempty by blast

lemma validate_feedingLogSchema:
  "(validate e feedingLogSchema body = None) =
   (\<exists>kvs. body = JObj kvs \<and>
      (\<exists>d. map_of kvs ''device_id'' = Some (JStr d) \<and> d \<noteq> []) \<and>
      (\<exists>a. map_of kvs ''action'' = Some (JStr a) \<and>
           a \<in> set [''open'', ''close'', ''error'', ''startup'', ''shutdown'']) \<and>
      (\<exists>v. map_of kvs ''timestamp'' = Some v \<and>
           ((\<exists>t. v = JStr t) \<or> (\<exists>n. v = JNum n)) \<and> is_iso_date e v) \<and>
      (map_of kvs ''details'' = None \<or> (\<exists>kv. map_of kvs ''details'' = Some (JObj kv))) \<and>
      fst ` set kvs \<subseteq> set [''device_id'', ''action'', ''timestamp'', ''details''])"
proof (cases body)
  case (JObj kvs)
  have a: "(\<exists>v. get_key ''device_id'' (JObj kvs) = Some v \<and> (\<exists>t. v = JStr t \<and> t \<noteq> [])) =
           (\<exists>d. map_of kvs ''device_id'' = Some (JStr d) \<and> d \<noteq> [])"
    by auto
  have b: "(\<exists>v. get_key ''action'' (JObj kvs) = Some v \<and> (\<exists>t. v = JStr t \<and> t \<in> set allowed)) =
           (\<exists>a. map_of kvs ''action'' = Some (JStr a) \<and> a \<in> set allowed)" for allowed
    by auto
  have c: "(\<exists>v. get_key ''timestamp'' (JObj kvs) = Some v \<and>
              ((\<exists>t. v = JStr t) \<or> (\<exists>n. v = JNum n)) \<and> is_iso_date e v) =
           (\<exists>v. map_of kvs ''timestamp'' = Some v \<and>
              ((\<exists>t. v = JStr t) \<or> (\<exists>n. v = JNum n)) \<and> is_iso_date e v)"
    by simp
  have d: "(get_key ''details'' (JObj kvs) = None \<or>
            (\<exists>v. get_key ''details'' (JObj kvs) = Some v \<and> (\<exists>kv. v = JObj kv))) =
           (map_of kvs ''details'' = None \<or> (\<exists>kv. map_of kvs ''details'' = Some (JObj kv)))"
    by auto
  have "(validate_keys e feedingLogSchema (JObj kvs) = None) =
      ((\<exists>d. map_of kvs ''device_id'' = Some (JStr d) \<and> d \<noteq> []) \<and>
      (\<exists>a. map_of kvs ''action'' = Some (JStr a) \<and>
           a \<in> set [''open'', ''close'', ''error'', ''startup'', ''shutdown'']) \<and>
      (\<exists>v. map_of kvs ''timestamp'' = Some v \<and>
           ((\<exists>t. v = JStr t) \<or> (\<exists>n. v = JNum n)) \<and> is_iso_date e v) \<and>
      (map_of kvs ''details'' = None \<or> (\<exists>kv. map_of kvs ''details'' = Some (JObj kv))))"
    unfolding feedingLogSchema_def validate_keys_Required validate_keys_Optional
      validate_string_None validate_valid_None validate_date_None validate_object_None
      a b c d
    by (simp only: validate_keys.simps simp_thms)
  moreover have "(validate e feedingLogSchema (JObj kvs) = None) =
     (validate_keys e feedingLogSchema (JObj kvs) = None \<and>
      fst ` set kvs \<subseteq> fst ` set feedingLogSchema)"
    unfolding validate_def
    by (cases "validate_keys e feedingLogSchema (JObj kvs)") (simp_all add: no_unknown_keys)
  ultimately show ?thesis
    by (simp add: JObj feedingLogSchema_def)
qed (simp_all add: validate_def)

lemma validate_configUpdateSchema:
  "(validate e configUpdateSchema body = None) =
   (\<exists>kvs. body = JObj kvs \<and>
      (\<exists>d. map_of kvs ''device_id'' = Some (JStr d) \<and> d \<noteq> []) \<and>
      (\<exists>xs. map_of kvs ''feeding_times'' = Some (JArr xs) \<and>
            (\<forall>x \<in> set xs. \<exists>t. x = JStr t \<and> time_pattern t)) \<and>
      (\<exists>v n. map_of kvs ''duration_minutes'' = Some v \<and> joi_number e v = Inr n \<and>
             1 \<le> n \<and> n \<le> 120) \<and>
      fst ` set kvs \<subseteq> set [''device_id'', ''feeding_times'', ''duration_minutes''])"
proof (cases body)
  case (JObj kvs)
  have "(validate_keys e configUpdateSchema (JObj kvs) = None) =
      ((\<exists>d. map_of kvs ''device_id'' = Some (JStr d) \<and> d \<noteq> []) \<and>
       (\<exists>xs. map_of kvs ''feeding_times'' = Some (JArr xs) \<and>
            (\<forall>x \<in> set xs. \<exists>t. x = JStr t \<and> time_pattern t)) \<and>
       (\<exists>v n. map_of kvs ''duration_minutes'' = Some v \<and> joi_number e v = Inr n \<and>
             1 \<le> n \<and> n \<le> 120))"
    unfolding configUpdateSchema_def validate_keys_Required validate_string_None
      validate_times_None validate_duration_None
    by auto
  moreover have "(validate e configUpdateSchema (JObj kvs) = None) =
     (validate_keys e configUpdateSchema (JObj kvs) = None \<and>
      fst ` set kvs \<subseteq> fst ` set configUpdateSchema)"
    unfolding validate_def
    by (cases "validate_keys e configUpdateSchema (JObj kvs)") (simp_all add: no_unknown_keys)
  ultimately show ?thesis
    by (simp add: JObj configUpdateSchema_def)
qed (simp_all add: validate_def)

subsection \<open>The statistics endpoint\<close>

text \<open>
  C10. \<open>GET /api/stats/:device_id\<close> puts the \<open>days\<close> query parameter into the text of both
  statements, inside the \<open>INTERVAL\<close> literal, whatever text it is: each statement is one fixed
  text before \<open>INTERVAL '\<close>, then \<open>days\<close>, then \<open> days'\<close> and one fixed text after; two
  different values of \<open>days\<close> give two different statement texts; and the handler sends
  exactly these texts with the device id as the only bound parameter (it answers 500
  exactly when the store refuses one of these two statements, given a store that is up).
\<close>

theorem stats_query_text_embeds_days:
  "(\<exists>pre post. \<forall>days.
      stats_query days = pre @ ''INTERVAL '' @ [CHR 0x27] @ days @ '' days'' @ [CHR 0x27] @ post) \<and>
   (\<exists>pre post. \<forall>days.
      missed_stats_query days =
        pre @ ''INTERVAL '' @ [CHR 0x27] @ days @ '' days'' @ [CHR 0x27] @ post) \<and>
   ((stats_query d1 = stats_query d2) = (d1 = d2)) \<and>
   ((missed_stats_query d1 = missed_stats_query d2) = (d1 = d2)) \<and>
   (db_up e \<longrightarrow>
      (status (fst (get_stats e device_id (Some d1) s)) = 500) =
      (rejects e (Select (stats_query d1)) [PText device_id] \<or>
       rejects e (Select (missed_stats_query d1)) [PText device_id]))"
proof (intro conjI impI)
  show "\<exists>pre post. \<forall>days.
      stats_query days = pre @ ''INTERVAL '' @ [CHR 0x27] @ days @ '' days'' @ [CHR 0x27] @ post"
    unfolding stats_query_def
    apply (rule exI [of _ "''SELECT'' @ nl @
     ''        DATE(timestamp) as date,'' @ nl @
     ''        COUNT(CASE WHEN action = 'open' THEN 1 END) as opens,'' @ nl @
     ''        COUNT(CASE WHEN action = 'close' THEN 1 END) as closes,'' @ nl @
     ''        COUNT(CASE WHEN action = 'error' THEN 1 END) as errors'' @ nl @
     ''       FROM feeding_logs'' @ nl @
     ''       WHERE device_id = $1'' @ nl @
     ''       AND timestamp >= NOW() - ''"])
    apply (rule exI [of _ "nl @ ''       GROUP BY DATE(timestamp)'' @ nl @
     ''       ORDER BY date DESC''"])
    apply simp
    done
  show "\<exists>pre post. \<forall>days.
      missed_stats_query days =
        pre @ ''INTERVAL '' @ [CHR 0x27] @ days @ '' days'' @ [CHR 0x27] @ post"
    unfolding missed_stats_query_def
    apply (rule exI [of _ "''SELECT DATE(scheduled_time) as date, COUNT(*) as missed_count'' @ nl @
     ''       FROM missed_feedings'' @ nl @
     ''       WHERE device_id = $1'' @ nl @
     ''       AND scheduled_time >= NOW() - ''"])
    apply (rule exI [of _ "nl @ ''       GROUP BY DATE(scheduled_time)''"])
    apply simp
    done
  show "(stats_query d1 = stats_query d2) = (d1 = d2)"
    unfolding stats_query_def nl_def by simp
  show "(missed_stats_query d1 = missed_stats_query d2) = (d1 = d2)"
    unfolding missed_stats_query_def nl_def by simp
  assume "db_up e"
  then show "(status (fst (get_stats e device_id (Some d1) s)) = 500) =
      (rejects e (Select (stats_query d1)) [PText device_id] \<or>
       rejects e (Select (missed_stats_query d1)) [PText device_id])"
    by (simp add: get_stats_def pool_query_select_def pool_query_fails_def
        internal_server_error_def)
qed

theorem stats_query_text_embeds_days_witness:
  "db_up env0 \<and>
   stats_query ''7'' \<noteq> stats_query ''0 days' OR '1' = '1'' \<and>
   missed_stats_query ''7'' \<noteq> missed_stats_query ''0 days' OR '1' = '1'' \<and>
   status (fst (get_stats env0 ''feeder-1'' (Some ''7'') server1)) \<noteq> 500"
  using stats_query_text_embeds_days [of "''7''" "''0 days' OR '1' = '1''" env0 "''feeder-1''" server1]
  by (simp add: env0_fields)

subsection \<open>The host's time zone\<close>

text \<open>
  C4, as amended. The check compares the schedule with the host's local wall clock:
  \<open>currentTime\<close> depends on the instant and on the host's offset only through the local
  minute of the day, so two ticks whose local minute of the day is the same (in
  particular two ticks at the same instant on hosts with the same offset) match the same
  entries of every schedule.
\<close>

theorem currentTime_depends_on_local_minute:
  assumes "((now e1 + tza e1) div 60000) mod 1440 = ((now e2 + tza e2) div 60000) mod 1440"
  shows "currentTime e1 = currentTime e2 \<and>
         List.member (feeding_times cfg) (currentTime e1) =
         List.member (feeding_times cfg) (currentTime e2)"
  using currentTime_cong [OF assms] by simp

theorem currentTime_depends_on_local_minute_witness:
  "currentTime env_kst = currentTime (env0\<lparr>now := 1704142800000\<rparr>) \<and>
   List.member (feeding_times cfg12) (currentTime env_kst) =
   List.member (feeding_times cfg12) (currentTime (env0\<lparr>now := 1704142800000\<rparr>))"
proof -
  have "((now env_kst + tza env_kst) div 60000) mod 1440 =
        ((now (env0\<lparr>now := 1704142800000\<rparr>) + tza (env0\<lparr>now := 1704142800000\<rparr>)) div 60000)
          mod 1440"
    by (simp add: env_kst_fields env0_def)
  then show ?thesis by (rule currentTime_depends_on_local_minute)
qed

text \<open>
  The claim as written fails: at one instant, a host at UTC matches the entry \<open>12:00\<close> and
  records the incident, a host nine hours ahead matches nothing.
\<close>

theorem host_timezone_changes_match:
  "now env_kst = now env0 \<and>
   List.member (feeding_times cfg12) (currentTime env0) \<and>
   \<not> List.member (feeding_times cfg12) (currentTime env_kst) \<and>
   map mf_device_id (missed_feedings (db (step env0 CronTick server1))) = [''feeder-1''] \<and>
   missed_feedings (db (step env_kst CronTick server1)) = []"
  by (simp add: step.simps currentTime_env0 currentTime_env_kst cfg12_def cron_tick_def
      server1_def count_open_feedings_def insert_missed_feeding_def pool_query_fails_def varchar_def
      has_incident_def empty_db_def env_kst_fields env0_fields)

subsection \<open>What the check writes as \<open>scheduled_time\<close>\<close>

text \<open>
  C3, as amended. Every incident the check records has \<open>scheduled_time\<close> equal to the
  reading of \<open>new Date()\<close> at the start of the tick. That instant lies in the minute the
  matched entry names (from the due instant up to, and not including, one minute later),
  and it is the due instant exactly when the reading has no seconds and no milliseconds
  left over in the host's local time.
\<close>

theorem incident_scheduled_time_is_tick_instant:
  "\<exists>new. missed_feedings (db (step e CronTick s)) = missed_feedings (db s) @ new \<and>
     (\<forall>r \<in> set new.
        mf_scheduled_time r = now e \<and>
        scheduled_instant e \<le> mf_scheduled_time r \<and>
        mf_scheduled_time r < scheduled_instant e + 60000 \<and>
        (mf_scheduled_time r = scheduled_instant e) = ((now e + tza e) mod 60000 = 0) \<and>
        currentTime (e\<lparr>now := scheduled_instant e\<rparr>) = currentTime e)"
proof -
  obtain x lg d' where
    r: "check_devices e (currentTime e) (deviceConfigs s) [] (db s) = (x, lg, d')"
    by (cases "check_devices e (currentTime e) (deviceConfigs s) [] (db s)")
  from check_devices_rows [OF r] obtain new where
    new: "missed_feedings d' = missed_feedings (db s) @ new" and
    at: "\<forall>r \<in> set new. mf_scheduled_time r = now e"
    by blast
  have b: "scheduled_instant e \<le> now e \<and> now e < scheduled_instant e + 60000 \<and>
           (now e = scheduled_instant e) = ((now e + tza e) mod 60000 = 0)"
    unfolding scheduled_instant_def
    using pos_mod_bound [of 60000 "now e + tza e"] pos_mod_sign [of 60000 "now e + tza e"]
    by auto
  show ?thesis
    apply (rule exI [of _ new])
    using new at b by (simp add: tick_db r scheduled_instant_minute)
qed

theorem incident_scheduled_time_is_tick_instant_witness:
  "map mf_scheduled_time (missed_feedings (db (step env0 CronTick server1))) = [now env0] \<and>
   now env0 = scheduled_instant env0"
  using incident_scheduled_time_is_tick_instant [of env0 server1]
  unfolding tick_env0_server1
  by (simp add: server1_def empty_db_def scheduled_instant_def env0_fields)

text \<open>
  The claim as written fails: a tick that reads the clock 250 ms after 12:00:00 records
  12:00:00.250, not 12:00:00.000.
\<close>

theorem scheduled_time_keeps_milliseconds:
  "currentTime (env_at 250) = ''12:00'' \<and>
   scheduled_instant (env_at 250) = 1704110400000 \<and>
   map mf_scheduled_time (missed_feedings (db (step (env_at 250) CronTick server1))) =
     [1704110400250]"
  by (simp add: step.simps currentTime_def getHours_def getMinutes_def padStart_def digits.simps
      scheduled_instant_def cfg12_def cron_tick_def server1_def
      count_open_feedings_def insert_missed_feeding_def pool_query_fails_def varchar_def
      has_incident_def empty_db_def env_at_fields)

subsection \<open>One incident for each key\<close>

text \<open>
  C2, as amended. The check never leaves two incidents with the same \<open>(device_id,
  scheduled_time)\<close>, where \<open>scheduled_time\<close> is the instant the tick read from the clock: a
  table whose keys are distinct keeps distinct keys through every run of requests and
  ticks. Running the check again with the same clock reading, any number of times,
  leaves the incident table as the first run left it; and a run for which every device's
  key at that reading is already in the table writes no row.
\<close>

theorem detector_keeps_one_incident_per_key:
  "(distinct (map mf_key (missed_feedings (db s))) \<longrightarrow>
      distinct (map mf_key (missed_feedings (db (run ops s))))) \<and>
   missed_feedings (db (((step e CronTick) ^^ Suc n) s)) =
     missed_feedings (db (step e CronTick s)) \<and>
   ((\<forall>p \<in> set (deviceConfigs s). \<forall>stored.
        varchar 100 (fst p) = Inr stored \<longrightarrow> has_incident (db s) stored (now e)) \<longrightarrow>
      missed_feedings (db (step e CronTick s)) = missed_feedings (db s))"
proof (intro conjI impI)
  assume "distinct (map mf_key (missed_feedings (db s)))"
  then show "distinct (map mf_key (missed_feedings (db (run ops s))))"
    by (rule run_distinct)
next
  show "missed_feedings (db (((step e CronTick) ^^ Suc n) s)) =
        missed_feedings (db (step e CronTick s))"
    using tick_repeat_state [where e = e and n = n and s = s] by blast
next
  assume present: "\<forall>p \<in> set (deviceConfigs s). \<forall>stored.
        varchar 100 (fst p) = Inr stored \<longrightarrow> has_incident (db s) stored (now e)"
  obtain x lg d' where
    r: "check_devices e (currentTime e) (deviceConfigs s) [] (db s) = (x, lg, d')"
    by (cases "check_devices e (currentTime e) (deviceConfigs s) [] (db s)")
  from check_devices_present [OF r present]
  show "missed_feedings (db (step e CronTick s)) = missed_feedings (db s)"
    by (simp add: tick_db r)
qed

theorem detector_keeps_one_incident_per_key_witness:
  "distinct (map mf_key (missed_feedings (db (run [(env0, CronTick), (env0, CronTick)] server1)))) \<and>
   missed_feedings (db (((step env0 CronTick) ^^ Suc 2) server1)) =
     missed_feedings (db (step env0 CronTick server1)) \<and>
   length (missed_feedings (db (step env0 CronTick server1))) = 1 \<and>
   missed_feedings (db (step env0 CronTick (step env0 CronTick server1))) =
     missed_feedings (db (step env0 CronTick server1))"
proof -
  have d0: "distinct (map mf_key (missed_feedings (db server1)))"
    by (simp add: server1_def empty_db_def)
  have present:
    "\<forall>p \<in> set (deviceConfigs (step env0 CronTick server1)). \<forall>stored.
        varchar 100 (fst p) = Inr stored \<longrightarrow>
        has_incident (db (step env0 CronTick server1)) stored (now env0)"
    unfolding tick_env0_server1
    by (simp add: varchar_def has_incident_def env0_fields)
  from detector_keeps_one_incident_per_key
    [where s = server1 and ops = "[(env0, CronTick), (env0, CronTick)]" and e = env0 and n = 2] d0
  have a: "distinct (map mf_key (missed_feedings (db (run [(env0, CronTick), (env0, CronTick)] server1))))"
    and b: "missed_feedings (db (((step env0 CronTick) ^^ Suc 2) server1)) =
     missed_feedings (db (step env0 CronTick server1))"
    by blast+
  from detector_keeps_one_incident_per_key
    [where s = "step env0 CronTick server1" and ops = "[]" and e = env0 and n = 0] present
  have c: "missed_feedings (db (step env0 CronTick (step env0 CronTick server1))) =
     missed_feedings (db (step env0 CronTick server1))"
    by blast
  have "length (missed_feedings (db (step env0 CronTick server1))) = 1"
    unfolding tick_env0_server1 by simp
  with a b c show ?thesis by blast
qed

text \<open>
  The claim as written fails: a second run in the same minute that reads the clock 250 ms
  later meets no conflict, and writes a second incident for the same device and the same
  due feeding.
\<close>

theorem same_minute_rerun_writes_second_incident:
  "currentTime (env_at 0) = currentTime (env_at 250) \<and>
   scheduled_instant (env_at 0) = scheduled_instant (env_at 250) \<and>
   map mf_key (missed_feedings (db (run [(env_at 0, CronTick), (env_at 250, CronTick)] server1))) =
     [(''feeder-1'', 1704110400000), (''feeder-1'', 1704110400250)]"
proof -
  have ct: "currentTime (env_at 250) = ''12:00''"
    by (simp add: currentTime_def getHours_def getMinutes_def padStart_def env_at_fields
        digits.simps)
  have si: "scheduled_instant (env_at 0) = scheduled_instant (env_at 250)"
    by (simp add: scheduled_instant_def env_at_fields)
  have "map mf_key (missed_feedings (db (step (env_at 250) CronTick
          (step (env_at 0) CronTick server1)))) =
     [(''feeder-1'', 1704110400000), (''feeder-1'', 1704110400250)]"
    unfolding tick_env_at_0_server1
    by (simp add: step.simps ct cfg12_def cron_tick_def
        count_open_feedings_def insert_missed_feeding_def pool_query_fails_def varchar_def
        has_incident_def env_at_fields mf_key_def)
  with ct si show ?thesis
    by (simp add: currentTime_env_at)
qed

subsection \<open>A store that does not answer\<close>





subsection \<open>The event log only grows\<close>

text \<open>
  C8. No request and no tick changes or removes a row of \<open>feeding_logs\<close>: after any
  operation, and after any run of operations, the table is the old table followed by
  the rows added, so every row that was there is still there, in its place and unchanged.
\<close>

theorem feeding_logs_append_only:
  "(\<exists>new. feeding_logs (db (step e op s)) = feeding_logs (db s) @ new) \<and>
   (\<exists>new. feeding_logs (db (run ops s)) = feeding_logs (db s) @ new) \<and>
   take (length (feeding_logs (db s))) (feeding_logs (db (run ops s))) = feeding_logs (db s)"
proof -
  from run_feeding_logs [of "[(e, op)]" s] have a:
    "\<exists>new. feeding_logs (db (step e op s)) = feeding_logs (db s) @ new" by simp
  from run_feeding_logs [of ops s] obtain new where
    n: "feeding_logs (db (run ops s)) = feeding_logs (db s) @ new" ..
  then have "take (length (feeding_logs (db s))) (feeding_logs (db (run ops s))) =
             feeding_logs (db s)" by simp
  with a n show ?thesis by blast
qed

theorem feeding_logs_append_only_witness:
  "length (feeding_logs (db (step env0 (Request (PostFeedingLog open_body)) server2))) = 2 \<and>
   take 1 (feeding_logs (db (run [(env0, Request (PostFeedingLog open_body)), (env0, CronTick)]
                                 server2))) =
     feeding_logs (db server2)"
proof -
  have "length (feeding_logs (db server2)) = 1"
    by (simp add: server2_def empty_db_def)
  with feeding_logs_append_only
    [of env0 CronTick server2 "[(env0, Request (PostFeedingLog open_body)), (env0, CronTick)]"]
  have "take 1 (feeding_logs (db (run [(env0, Request (PostFeedingLog open_body)), (env0, CronTick)]
                                 server2))) = feeding_logs (db server2)"
    by simp
  moreover have
    "length (feeding_logs (db (step env0 (Request (PostFeedingLog open_body)) server2))) = 2"
    unfolding post_open_body_server2 by (simp add: server2_def empty_db_def)
  ultimately show ?thesis by blast
qed

subsection \<open>Posting an event\<close>

lemma insert_feeding_log_Inr:
  assumes "insert_feeding_log e dev act ts det d = Inr d'"
  shows "\<exists>t sd sa. pg_timestamp e ts = Some t \<and> varchar 100 dev = Inr sd \<and>
           varchar 50 act = Inr sa \<and>
           d' = d\<lparr>feeding_logs := feeding_logs d @
                    [\<lparr>fl_id = Suc (feeding_logs_id_seq d), fl_device_id = sd,
                      fl_action = sa, fl_timestamp = t, fl_details = det,
                      fl_created_at = db_now e\<rparr>],
                  feeding_logs_id_seq := Suc (feeding_logs_id_seq d)\<rparr>"
  using assms
  by (auto simp: insert_feeding_log_def split: if_splits option.splits sum.splits)

lemma post_feeding_log_invalid:
  "validate e feedingLogSchema body = Some err \<Longrightarrow>
   post_feeding_log e body s = (\<lparr>status = 400, payload = JoiMessage err\<rparr>, [], s)"
  by (simp add: post_feeding_log_def)

lemma valid_action_fits:
  assumes "validate e feedingLogSchema body = None"
  shows "varchar 50 (str_of (get_key ''action'' body)) = Inr (str_of (get_key ''action'' body))"
proof -
  from assms obtain kvs a where "body = JObj kvs" "map_of kvs ''action'' = Some (JStr a)"
    "a \<in> set [''open'', ''close'', ''error'', ''startup'', ''shutdown'']"
    unfolding validate_feedingLogSchema by blast
  then show ?thesis by (auto simp: varchar_def)
qed

lemma post_feeding_log_cases:
  "((status (fst (post_feeding_log e body s)) = 400) =
      (validate e feedingLogSchema body \<noteq> None)) \<and>
   (status (fst (post_feeding_log e body s)) = 200 \<or>
    status (fst (post_feeding_log e body s)) = 400 \<or>
    status (fst (post_feeding_log e body s)) = 500) \<and>
   (status (fst (post_feeding_log e body s)) = 200 \<longrightarrow>
      (\<exists>row. feeding_logs (db (snd (snd (post_feeding_log e body s)))) =
               feeding_logs (db s) @ [row] \<and>
             varchar 100 (str_of (get_key ''device_id'' body)) = Inr (fl_device_id row) \<and>
             fl_action row = str_of (get_key ''action'' body) \<and>
             pg_timestamp e (raw_of (get_key ''timestamp'' body)) = Some (fl_timestamp row) \<and>
             fl_details row = (case get_key ''details'' body of Some v \<Rightarrow> v | None \<Rightarrow> JObj []))) \<and>
   (status (fst (post_feeding_log e body s)) \<noteq> 200 \<longrightarrow>
      snd (snd (post_feeding_log e body s)) = s) \<and>
   (validate e feedingLogSchema body = None \<and> db_up e \<and>
    \<not> rejects e InsertFeedingLog
        [PText (str_of (get_key ''device_id'' body)), PText (str_of (get_key ''action'' body)),
         param_of (raw_of (get_key ''timestamp'' body)),
         PJson (case get_key ''details'' body of Some v \<Rightarrow> v | None \<Rightarrow> JObj [])] \<and>
    pg_timestamp e (raw_of (get_key ''timestamp'' body)) \<noteq> None \<and>
    length (str_of (get_key ''device_id'' body)) \<le> 100 \<longrightarrow>
      status (fst (post_feeding_log e body s)) = 200) \<and>
   (validate e feedingLogSchema body = None \<and> \<not> db_up e \<longrightarrow>
      status (fst (post_feeding_log e body s)) = 500) \<and>
   (validate e feedingLogSchema body = None \<and>
    pg_timestamp e (raw_of (get_key ''timestamp'' body)) = None \<longrightarrow>
      status (fst (post_feeding_log e body s)) = 500)"
proof (cases "validate e feedingLogSchema body")
  case (Some err)
  show ?thesis
    unfolding post_feeding_log_invalid [OF Some]
    by (simp add: Some)
next
  case None
  let ?dev = "str_of (get_key ''device_id'' body)"
  let ?act = "str_of (get_key ''action'' body)"
  let ?ts = "raw_of (get_key ''timestamp'' body)"
  let ?det = "case get_key ''details'' body of Some v \<Rightarrow> v | None \<Rightarrow> JObj []"
  have post: "post_feeding_log e body s =
    (case insert_feeding_log e ?dev ?act ?ts ?det (db s) of
       Inl x \<Rightarrow> (internal_server_error, [LogError ''Error logging feeding event:'' x], s)
     | Inr d \<Rightarrow>
         (\<lparr>status = 200, payload = Json (JObj [(''success'', JBool True)])\<rparr>,
          [LogInfo (''Feeding event logged: '' @ ?dev @ '' - '' @ ?act)], s\<lparr>db := d\<rparr>))"
    by (simp add: post_feeding_log_def None Let_def)
  show ?thesis
  proof (cases "insert_feeding_log e ?dev ?act ?ts ?det (db s)")
    case (Inl x)
    then have p: "post_feeding_log e body s =
        (internal_server_error, [LogError ''Error logging feeding event:'' x], s)"
      by (simp add: post)
    have fails: "\<not> (db_up e \<and> \<not> rejects e InsertFeedingLog [PText ?dev, PText ?act, param_of ?ts, PJson ?det] \<and>
           pg_timestamp e ?ts \<noteq> None \<and> length ?dev \<le> 100)"
      using Inl valid_action_fits [OF None]
      by (auto simp: insert_feeding_log_def pool_query_fails_def varchar_short
          split: if_splits option.splits)
    show ?thesis
      unfolding p
      using fails by (simp add: None internal_server_error_def)
  next
    case (Inr d)
    then have p: "post_feeding_log e body s =
         (\<lparr>status = 200, payload = Json (JObj [(''success'', JBool True)])\<rparr>,
          [LogInfo (''Feeding event logged: '' @ ?dev @ '' - '' @ ?act)], s\<lparr>db := d\<rparr>)"
      by (simp add: post)
    from insert_feeding_log_Inr [OF Inr] valid_action_fits [OF None]
    obtain t sd where t: "pg_timestamp e ?ts = Some t" and sd: "varchar 100 ?dev = Inr sd"
      and d: "d = (db s)\<lparr>feeding_logs := feeding_logs (db s) @
                    [\<lparr>fl_id = Suc (feeding_logs_id_seq (db s)), fl_device_id = sd,
                      fl_action = ?act, fl_timestamp = t, fl_details = ?det,
                      fl_created_at = db_now e\<rparr>],
                  feeding_logs_id_seq := Suc (feeding_logs_id_seq (db s))\<rparr>"
      by auto
    have up: "db_up e"
      using Inr by (auto simp: insert_feeding_log_def pool_query_fails_def split: if_splits)
    show ?thesis
      unfolding p
      using t sd up by (simp add: None d)
  qed
qed

text \<open>
  C6, as amended. The handler of \<open>POST /api/feeding/log\<close> answers 400 exactly when Joi
  finds the body in violation of the event schema, that is, unless the body is an object
  with a non-empty text \<open>device_id\<close>, an \<open>action\<close> among open, close, error, startup and
  shutdown, a \<open>timestamp\<close> that is a text or a number and that Joi reads as an ISO-8601
  date, an optional object \<open>details\<close> and no other key. Its answers are 200, 400 and 500
  only. It answers 200 exactly when the store takes the \<open>INSERT\<close>, and then one row,
  holding the posted values, has been added to \<open>feeding_logs\<close>; with any other answer
  nothing is written. A body that passes the schema is answered 200 when the store is up,
  does not refuse the statement, reads the posted timestamp and the device id fits the
  column; it is answered 500 when the store is unreachable, and when the store does not
  read the posted timestamp (the number 2024 passes the schema and is no timestamp for
  the store).
\<close>

theorem post_feeding_log_outcomes:
  "((status (fst (post_feeding_log e body s)) = 400) =
      (validate e feedingLogSchema body \<noteq> None)) \<and>
   ((validate e feedingLogSchema body = None) =
      (\<exists>kvs. body = JObj kvs \<and>
        (\<exists>d. map_of kvs ''device_id'' = Some (JStr d) \<and> d \<noteq> []) \<and>
        (\<exists>a. map_of kvs ''action'' = Some (JStr a) \<and>
             a \<in> set [''open'', ''close'', ''error'', ''startup'', ''shutdown'']) \<and>
        (\<exists>v. map_of kvs ''timestamp'' = Some v \<and>
             ((\<exists>t. v = JStr t) \<or> (\<exists>n. v = JNum n)) \<and> is_iso_date e v) \<and>
        (map_of kvs ''details'' = None \<or> (\<exists>kv. map_of kvs ''details'' = Some (JObj kv))) \<and>
        fst ` set kvs \<subseteq> set [''device_id'', ''action'', ''timestamp'', ''details''])) \<and>
   (status (fst (post_feeding_log e body s)) = 200 \<or>
    status (fst (post_feeding_log e body s)) = 400 \<or>
    status (fst (post_feeding_log e body s)) = 500) \<and>
   (status (fst (post_feeding_log e body s)) = 200 \<longrightarrow>
      (\<exists>row. feeding_logs (db (snd (snd (post_feeding_log e body s)))) =
               feeding_logs (db s) @ [row] \<and>
             varchar 100 (str_of (get_key ''device_id'' body)) = Inr (fl_device_id row) \<and>
             fl_action row = str_of (get_key ''action'' body) \<and>
             pg_timestamp e (raw_of (get_key ''timestamp'' body)) = Some (fl_timestamp row) \<and>
             fl_details row = (case get_key ''details'' body of Some v \<Rightarrow> v | None \<Rightarrow> JObj []))) \<and>
   (status (fst (post_feeding_log e body s)) \<noteq> 200 \<longrightarrow>
      snd (snd (post_feeding_log e body s)) = s) \<and>
   (validate e feedingLogSchema body = None \<and> db_up e \<and>
    \<not> rejects e InsertFeedingLog
        [PText (str_of (get_key ''device_id'' body)), PText (str_of (get_key ''action'' body)),
         param_of (raw_of (get_key ''timestamp'' body)),
         PJson (case get_key ''details'' body of Some v \<Rightarrow> v | None \<Rightarrow> JObj [])] \<and>
    pg_timestamp e (raw_of (get_key ''timestamp'' body)) \<noteq> None \<and>
    length (str_of (get_key ''device_id'' body)) \<le> 100 \<longrightarrow>
      status (fst (post_feeding_log e body s)) = 200) \<and>
   (validate e feedingLogSchema body = None \<and> \<not> db_up e \<longrightarrow>
      status (fst (post_feeding_log e body s)) = 500) \<and>
   (validate e feedingLogSchema body = None \<and>
    pg_timestamp e (raw_of (get_key ''timestamp'' body)) = None \<longrightarrow>
      status (fst (post_feeding_log e body s)) = 500)"
proof -
  note c = post_feeding_log_cases [of e body s]
  show ?thesis
    apply (intro conjI)
           apply (rule c [THEN conjunct1])
          apply (fact validate_feedingLogSchema)
         apply (rule c [THEN conjunct2, THEN conjunct1])
        apply (rule c [THEN conjunct2, THEN conjunct2, THEN conjunct1])
       apply (rule c [THEN conjunct2, THEN conjunct2, THEN conjunct2, THEN conjunct1])
      apply (rule c [THEN conjunct2, THEN conjunct2, THEN conjunct2, THEN conjunct2, THEN conjunct1])
     apply (rule c [THEN conjunct2, THEN conjunct2, THEN conjunct2, THEN conjunct2, THEN conjunct2,
          THEN conjunct1])
    apply (rule c [THEN conjunct2, THEN conjunct2, THEN conjunct2, THEN conjunct2, THEN conjunct2,
          THEN conjunct2])
    done
qed

theorem post_feeding_log_outcomes_witness:
  "validate env0 feedingLogSchema open_body = None \<and>
   status (fst (post_feeding_log env0 open_body server2)) = 200 \<and>
   length (feeding_logs (db (snd (snd (post_feeding_log env0 open_body server2))))) = 2 \<and>
   status (fst (post_feeding_log env0 (JObj []) server2)) = 400 \<and>
   validate env0 feedingLogSchema year_body = None \<and>
   status (fst (post_feeding_log env0 year_body server2)) = 500 \<and>
   snd (snd (post_feeding_log env0 year_body server2)) = server2"
proof -
  note t = post_feeding_log_outcomes [of env0 open_body server2]
  have pre: "validate env0 feedingLogSchema open_body = None \<and> db_up env0 \<and>
    \<not> rejects env0 InsertFeedingLog
        [PText (str_of (get_key ''device_id'' open_body)),
         PText (str_of (get_key ''action'' open_body)),
         param_of (raw_of (get_key ''timestamp'' open_body)),
         PJson (case get_key ''details'' open_body of Some v \<Rightarrow> v | None \<Rightarrow> JObj [])] \<and>
    pg_timestamp env0 (raw_of (get_key ''timestamp'' open_body)) \<noteq> None \<and>
    length (str_of (get_key ''device_id'' open_body)) \<le> 100"
    by (simp add: validate_open_body env0_fields) (simp add: open_body_def)
  from t pre have ok: "status (fst (post_feeding_log env0 open_body server2)) = 200"
    by blast
  with t obtain row where
    "feeding_logs (db (snd (snd (post_feeding_log env0 open_body server2)))) =
       feeding_logs (db server2) @ [row]"
    by blast
  then have len: "length (feeding_logs (db (snd (snd (post_feeding_log env0 open_body server2))))) = 2"
    by (simp add: server2_def empty_db_def)
  have "validate env0 feedingLogSchema (JObj []) \<noteq> None"
    by (simp add: validate_def feedingLogSchema_def)
  with post_feeding_log_outcomes [of env0 "JObj []" server2]
  have bad: "status (fst (post_feeding_log env0 (JObj []) server2)) = 400"
    by blast
  have v: "validate env0 feedingLogSchema year_body = None"
    by (simp add: validate_def feedingLogSchema_def year_body_def env0_fields)
  have ts: "pg_timestamp env0 (raw_of (get_key ''timestamp'' year_body)) = None"
    by (simp add: year_body_def env0_fields)
  from post_feeding_log_outcomes [of env0 year_body server2] v ts
  have y: "status (fst (post_feeding_log env0 year_body server2)) = 500"
    by blast
  with post_feeding_log_outcomes [of env0 year_body server2]
  have "snd (snd (post_feeding_log env0 year_body server2)) = server2"
    by simp
  with ok len validate_open_body bad v y show ?thesis by simp
qed

text \<open>
  The claim as written fails: a valid body posted while the store is unreachable is
  answered 500, and no row is inserted; and with the store answering, a body whose
  timestamp is the number 2024 is answered 500, not 400.
\<close>

theorem valid_event_with_store_down_gets_500:
  "validate env_down feedingLogSchema open_body = None \<and>
   status (fst (post_feeding_log env_down open_body server1)) = 500 \<and>
   feeding_logs (db (snd (snd (post_feeding_log env_down open_body server1)))) = [] \<and>
   status (fst (post_feeding_log env0 year_body server1)) = 500 \<and>
   feeding_logs (db (snd (snd (post_feeding_log env0 year_body server1)))) = []"
proof -
  have y: "validate env0 feedingLogSchema year_body = None"
    by (simp add: validate_def feedingLogSchema_def year_body_def env0_fields)
  have py: "post_feeding_log env0 year_body server1 =
        (internal_server_error,
         [LogError ''Error logging feeding event:'' InvalidTimestamp], server1)"
    by (simp add: post_feeding_log_def y Let_def)
       (simp add: year_body_def insert_feeding_log_def pool_query_fails_def env0_fields)
  have v: "validate env_down feedingLogSchema open_body = None"
    by (simp add: validate_def feedingLogSchema_def open_body_def env_down_fields)
  have "post_feeding_log env_down open_body server1 =
        (internal_server_error, [LogError ''Error logging feeding event:'' StoreFailure], server1)"
    by (simp add: post_feeding_log_def v Let_def insert_feeding_log_def pool_query_fails_def
        env_down_fields)
  then show ?thesis
    unfolding py
    by (simp add: v internal_server_error_def server1_def empty_db_def)
qed

subsection \<open>Posting a configuration\<close>

lemma upsert_device_config_Inr:
  assumes "upsert_device_config e dev tms dur d = Inr d'"
  shows "\<exists>sd n. varchar 100 dev = Inr sd \<and> integer_of_value e dur = Inr n \<and> db_up e \<and>
           d' = d\<lparr>device_configs :=
                (if list_ex (\<lambda>r. dc_device_id r = sd) (device_configs d)
                 then map (\<lambda>r. if dc_device_id r = sd
                                then r\<lparr>dc_feeding_times := tms,
                                       dc_duration_minutes := n,
                                       dc_updated_at := db_now e\<rparr>
                                else r) (device_configs d)
                 else device_configs d @
                      [\<lparr>dc_device_id = sd, dc_feeding_times = tms,
                        dc_duration_minutes = n, dc_created_at = db_now e,
                        dc_updated_at = db_now e\<rparr>])\<rparr>"
proof -
  have a: "\<not> pool_query_fails e UpsertDeviceConfig [PText dev, PTexts tms, param_of dur]"
    using assms
    by (cases "pool_query_fails e UpsertDeviceConfig [PText dev, PTexts tms, param_of dur]")
       (simp_all add: upsert_device_config_def)
  then have up: "db_up e"
    by (simp add: pool_query_fails_def)
  obtain n where n: "integer_of_value e dur = Inr n"
    using assms a
    by (cases "integer_of_value e dur") (simp_all add: upsert_device_config_def)
  obtain sd where sd: "varchar 100 dev = Inr sd"
    using assms a n
    by (cases "varchar 100 dev") (simp_all add: upsert_device_config_def)
  show ?thesis
    apply (rule exI [of _ sd])
    apply (rule exI [of _ n])
    using assms a n sd up by (simp add: upsert_device_config_def)
qed

lemma upsert_rows_present:
  fixes rows :: "device_config_row list"
  shows "\<forall>r \<in> set (map (\<lambda>r. if dc_device_id r = sd
                     then r\<lparr>dc_feeding_times := tms, dc_duration_minutes := n,
                            dc_updated_at := t\<rparr>
                     else r) rows). dc_device_id r = sd \<longrightarrow>
            dc_feeding_times r = tms \<and> dc_duration_minutes r = n"
proof (intro ballI impI)
  fix r
  define f :: "device_config_row \<Rightarrow> device_config_row" where "f = (\<lambda>r. if dc_device_id r = sd
                     then r\<lparr>dc_feeding_times := tms, dc_duration_minutes := n,
                            dc_updated_at := t\<rparr>
                     else r)"
  assume "r \<in> set (map (\<lambda>r. if dc_device_id r = sd
                     then r\<lparr>dc_feeding_times := tms, dc_duration_minutes := n,
                            dc_updated_at := t\<rparr>
                     else r) rows)"
  then have "r \<in> f ` set rows"
    unfolding f_def by (simp only: set_map)
  then obtain r0 where r0: "r = f r0" by (rule imageE)
  assume sd: "dc_device_id r = sd"
  show "dc_feeding_times r = tms \<and> dc_duration_minutes r = n"
  proof (cases "dc_device_id r0 = sd")
    case True
    then have "r = r0\<lparr>dc_feeding_times := tms, dc_duration_minutes := n, dc_updated_at := t\<rparr>"
      unfolding r0 f_def by (simp only: if_True simp_thms)
    then show ?thesis by simp
  next
    case False
    then have "r = r0" unfolding r0 f_def by (simp only: if_False simp_thms)
    with sd False show ?thesis by simp
  qed
qed

lemma upsert_rows_others:
  fixes rows :: "device_config_row list"
  shows "filter (\<lambda>r. dc_device_id r \<noteq> sd) (map (\<lambda>r. if dc_device_id r = sd
                     then r\<lparr>dc_feeding_times := tms, dc_duration_minutes := n,
                            dc_updated_at := t\<rparr>
                     else r) rows) = filter (\<lambda>r. dc_device_id r \<noteq> sd) rows"
  by (induction rows) auto

lemma upsert_rows_absent:
  fixes rows :: "device_config_row list"
  shows "\<not> list_ex (\<lambda>r. dc_device_id r = sd) rows \<Longrightarrow>
  (\<exists>r \<in> set (rows @ [\<lparr>dc_device_id = sd, dc_feeding_times = tms,
                    dc_duration_minutes = n, dc_created_at = t, dc_updated_at = t\<rparr>]). dc_device_id r = sd) \<and>
         (\<forall>r \<in> set (rows @ [\<lparr>dc_device_id = sd, dc_feeding_times = tms,
                    dc_duration_minutes = n, dc_created_at = t, dc_updated_at = t\<rparr>]). dc_device_id r = sd \<longrightarrow>
            dc_feeding_times r = tms \<and> dc_duration_minutes r = n) \<and>
         filter (\<lambda>r. dc_device_id r \<noteq> sd) (rows @ [\<lparr>dc_device_id = sd, dc_feeding_times = tms,
                    dc_duration_minutes = n, dc_created_at = t, dc_updated_at = t\<rparr>]) = filter (\<lambda>r. dc_device_id r \<noteq> sd) rows"
  by (auto simp: list_ex_iff)

lemma upsert_rows:
  fixes rows :: "device_config_row list"
  assumes rows': "rows' =
     (if list_ex (\<lambda>r. dc_device_id r = sd) rows
      then map (\<lambda>r. if dc_device_id r = sd
                     then r\<lparr>dc_feeding_times := tms, dc_duration_minutes := n,
                            dc_updated_at := t\<rparr>
                     else r) rows
      else rows @ [\<lparr>dc_device_id = sd, dc_feeding_times = tms, dc_duration_minutes = n,
                    dc_created_at = t, dc_updated_at = t\<rparr>])"
  shows "(\<exists>r \<in> set rows'. dc_device_id r = sd) \<and>
         (\<forall>r \<in> set rows'. dc_device_id r = sd \<longrightarrow>
            dc_feeding_times r = tms \<and> dc_duration_minutes r = n) \<and>
         filter (\<lambda>r. dc_device_id r \<noteq> sd) rows' = filter (\<lambda>r. dc_device_id r \<noteq> sd) rows"
proof (cases "list_ex (\<lambda>r. dc_device_id r = sd) rows")
  case True
  let ?f = "\<lambda>r. if dc_device_id r = sd
                     then r\<lparr>dc_feeding_times := tms, dc_duration_minutes := n,
                            dc_updated_at := t\<rparr>
                     else r"
  have r: "rows' = map ?f rows" using rows' True by (simp only: if_True)
  from True obtain r0 where "r0 \<in> set rows" "dc_device_id r0 = sd"
    unfolding list_ex_iff by (rule bexE)
  then have x: "?f r0 \<in> set rows'" and y: "dc_device_id (?f r0) = sd"
    unfolding r by simp_all
  obtain r1 where r1: "r1 \<in> set rows'" "dc_device_id r1 = sd"
    using x y by (rule that)
  have a: "\<exists>r \<in> set rows'. dc_device_id r = sd"
    using r1 by (rule_tac x = r1 in bexI)
  have b: "\<forall>r \<in> set rows'. dc_device_id r = sd \<longrightarrow>
            dc_feeding_times r = tms \<and> dc_duration_minutes r = n"
    unfolding r by (rule upsert_rows_present)
  have c: "filter (\<lambda>r. dc_device_id r \<noteq> sd) rows' = filter (\<lambda>r. dc_device_id r \<noteq> sd) rows"
    unfolding r by (rule upsert_rows_others)
  show ?thesis by (rule conjI [OF a conjI [OF b c]])
next
  case False
  then have r: "rows' = rows @ [\<lparr>dc_device_id = sd, dc_feeding_times = tms,
                    dc_duration_minutes = n, dc_created_at = t, dc_updated_at = t\<rparr>]"
    using rows' by (simp only: if_False)
  show ?thesis
    unfolding r by (rule upsert_rows_absent [OF False])
qed

lemma floor_half: "\<lfloor>61 / 2 :: rat\<rfloor> = 30"
  by (rule floor_unique) simp_all

lemma post_device_config_invalid:
  "validate e configUpdateSchema body = Some err \<Longrightarrow>
   post_device_config e body s = (\<lparr>status = 400, payload = JoiMessage err\<rparr>, [], s)"
  by (simp add: post_device_config_def)

lemma post_device_config_cases:
  "((status (fst (post_device_config e body s)) = 400) =
      (validate e configUpdateSchema body \<noteq> None)) \<and>
   (validate e configUpdateSchema body \<noteq> None \<longrightarrow>
      snd (snd (post_device_config e body s)) = s) \<and>
   (validate e configUpdateSchema body = None \<longrightarrow>
      deviceConfigs (snd (snd (post_device_config e body s))) =
        AList.update (str_of (get_key ''device_id'' body))
          \<lparr>feeding_times = strs_of (get_key ''feeding_times'' body),
           duration_minutes = raw_of (get_key ''duration_minutes'' body),
           last_update = now e\<rparr>
          (deviceConfigs s) \<and>
      map_of (deviceConfigs (snd (snd (post_device_config e body s))))
          (str_of (get_key ''device_id'' body)) =
        Some \<lparr>feeding_times = strs_of (get_key ''feeding_times'' body),
              duration_minutes = raw_of (get_key ''duration_minutes'' body),
              last_update = now e\<rparr> \<and>
      (\<forall>k. k \<noteq> str_of (get_key ''device_id'' body) \<longrightarrow>
         map_of (deviceConfigs (snd (snd (post_device_config e body s)))) k =
         map_of (deviceConfigs s) k)) \<and>
   (status (fst (post_device_config e body s)) = 200 \<longrightarrow>
      (\<exists>sd n. varchar 100 (str_of (get_key ''device_id'' body)) = Inr sd \<and>
         integer_of_value e (raw_of (get_key ''duration_minutes'' body)) = Inr n \<and>
         (\<exists>r \<in> set (device_configs (db (snd (snd (post_device_config e body s))))).
            dc_device_id r = sd) \<and>
         (\<forall>r \<in> set (device_configs (db (snd (snd (post_device_config e body s))))).
            dc_device_id r = sd \<longrightarrow>
            dc_feeding_times r = strs_of (get_key ''feeding_times'' body) \<and>
            dc_duration_minutes r = n) \<and>
         filter (\<lambda>r. dc_device_id r \<noteq> sd)
            (device_configs (db (snd (snd (post_device_config e body s))))) =
         filter (\<lambda>r. dc_device_id r \<noteq> sd) (device_configs (db s)))) \<and>
   (validate e configUpdateSchema body = None \<and> db_up e \<and>
    \<not> rejects e UpsertDeviceConfig
        [PText (str_of (get_key ''device_id'' body)),
         PTexts (strs_of (get_key ''feeding_times'' body)),
         param_of (raw_of (get_key ''duration_minutes'' body))] \<and>
    length (str_of (get_key ''device_id'' body)) \<le> 100 \<and>
    (\<exists>n. integer_of_value e (raw_of (get_key ''duration_minutes'' body)) = Inr n) \<longrightarrow>
      status (fst (post_device_config e body s)) = 200) \<and>
   (status (fst (post_device_config e body s)) = 200 \<or>
    status (fst (post_device_config e body s)) = 400 \<or>
    status (fst (post_device_config e body s)) = 500) \<and>
   (status (fst (post_device_config e body s)) = 500 \<longrightarrow>
      db (snd (snd (post_device_config e body s))) = db s) \<and>
   (validate e configUpdateSchema body = None \<and> \<not> db_up e \<longrightarrow>
      status (fst (post_device_config e body s)) = 500) \<and>
   (validate e configUpdateSchema body = None \<and>
    (\<forall>n. integer_of_value e (raw_of (get_key ''duration_minutes'' body)) \<noteq> Inr n) \<longrightarrow>
      status (fst (post_device_config e body s)) = 500)"
proof (cases "validate e configUpdateSchema body")
  case (Some err)
  show ?thesis
    unfolding post_device_config_invalid [OF Some]
    by (simp add: Some)
next
  case None
  let ?dev = "str_of (get_key ''device_id'' body)"
  let ?times = "strs_of (get_key ''feeding_times'' body)"
  let ?dur = "raw_of (get_key ''duration_minutes'' body)"
  let ?cfg = "\<lparr>feeding_times = ?times, duration_minutes = ?dur, last_update = now e\<rparr>"
  let ?s1 = "s\<lparr>deviceConfigs := AList.update ?dev ?cfg (deviceConfigs s)\<rparr>"
  have post: "post_device_config e body s =
    (case upsert_device_config e ?dev ?times ?dur (db s) of
       Inl x \<Rightarrow> (internal_server_error, [LogError ''Error updating device config:'' x], ?s1)
     | Inr d \<Rightarrow>
         (\<lparr>status = 200,
           payload = Json (JObj [(''success'', JBool True),
                                 (''message'', JStr ''Configuration updated'')])\<rparr>,
          [LogInfo (''Device config updated: '' @ ?dev)], ?s1\<lparr>db := d\<rparr>))"
    by (simp add: post_device_config_def None Let_def)
  have m: "map_of (AList.update ?dev ?cfg (deviceConfigs s)) ?dev = Some ?cfg \<and>
      (\<forall>k. k \<noteq> ?dev \<longrightarrow>
         map_of (AList.update ?dev ?cfg (deviceConfigs s)) k = map_of (deviceConfigs s) k)"
    by (simp add: AList.update_conv')
  show ?thesis
  proof (cases "upsert_device_config e ?dev ?times ?dur (db s)")
    case (Inl x)
    then have p: "post_device_config e body s =
        (internal_server_error, [LogError ''Error updating device config:'' x], ?s1)"
      by (simp add: post)
    have fails: "\<not> (db_up e \<and>
           \<not> rejects e UpsertDeviceConfig [PText ?dev, PTexts ?times, param_of ?dur] \<and>
           length ?dev \<le> 100 \<and> (\<exists>n. integer_of_value e ?dur = Inr n))"
    proof
      assume c: "db_up e \<and>
           \<not> rejects e UpsertDeviceConfig [PText ?dev, PTexts ?times, param_of ?dur] \<and>
           length ?dev \<le> 100 \<and> (\<exists>n. integer_of_value e ?dur = Inr n)"
      then obtain n where "integer_of_value e ?dur = Inr n" by blast
      with c have "\<exists>d. upsert_device_config e ?dev ?times ?dur (db s) = Inr d"
        by (simp add: upsert_device_config_def pool_query_fails_def varchar_short)
      with Inl show False by simp
    qed
    show ?thesis
      unfolding p using fails m by (simp add: None internal_server_error_def)
  next
    case (Inr d)
    then have p: "post_device_config e body s =
         (\<lparr>status = 200,
           payload = Json (JObj [(''success'', JBool True),
                                 (''message'', JStr ''Configuration updated'')])\<rparr>,
          [LogInfo (''Device config updated: '' @ ?dev)], ?s1\<lparr>db := d\<rparr>)"
      by (simp add: post)
    from upsert_device_config_Inr [OF Inr] obtain sd n where
      sd: "varchar 100 ?dev = Inr sd" and n: "integer_of_value e ?dur = Inr n" and
      up: "db_up e" and
      d0: "d = (db s)\<lparr>device_configs :=
                (if list_ex (\<lambda>r. dc_device_id r = sd) (device_configs (db s))
                 then map (\<lambda>r. if dc_device_id r = sd
                                then r\<lparr>dc_feeding_times := ?times,
                                       dc_duration_minutes := n,
                                       dc_updated_at := db_now e\<rparr>
                                else r) (device_configs (db s))
                 else device_configs (db s) @
                      [\<lparr>dc_device_id = sd, dc_feeding_times = ?times,
                        dc_duration_minutes = n, dc_created_at = db_now e,
                        dc_updated_at = db_now e\<rparr>])\<rparr>"
      by blast
    have d: "device_configs d =
                (if list_ex (\<lambda>r. dc_device_id r = sd) (device_configs (db s))
                 then map (\<lambda>r. if dc_device_id r = sd
                                then r\<lparr>dc_feeding_times := ?times,
                                       dc_duration_minutes := n,
                                       dc_updated_at := db_now e\<rparr>
                                else r) (device_configs (db s))
                 else device_configs (db s) @
                      [\<lparr>dc_device_id = sd, dc_feeding_times = ?times,
                        dc_duration_minutes = n, dc_created_at = db_now e,
                        dc_updated_at = db_now e\<rparr>])"
      unfolding d0 by simp
    note rows = upsert_rows [OF d]
    have five: "\<exists>sd n. varchar 100 ?dev = Inr sd \<and> integer_of_value e ?dur = Inr n \<and>
         (\<exists>r \<in> set (device_configs d). dc_device_id r = sd) \<and>
         (\<forall>r \<in> set (device_configs d). dc_device_id r = sd \<longrightarrow>
            dc_feeding_times r = ?times \<and> dc_duration_minutes r = n) \<and>
         filter (\<lambda>r. dc_device_id r \<noteq> sd) (device_configs d) =
         filter (\<lambda>r. dc_device_id r \<noteq> sd) (device_configs (db s))"
    proof (intro exI [of _ sd] exI [of _ n] conjI)
      show "varchar 100 ?dev = Inr sd" by (rule sd)
      show "integer_of_value e ?dur = Inr n" by (rule n)
      show "\<exists>r \<in> set (device_configs d). dc_device_id r = sd"
        by (rule rows [THEN conjunct1])
      show "\<forall>r \<in> set (device_configs d). dc_device_id r = sd \<longrightarrow>
            dc_feeding_times r = ?times \<and> dc_duration_minutes r = n"
        by (rule rows [THEN conjunct2, THEN conjunct1])
      show "filter (\<lambda>r. dc_device_id r \<noteq> sd) (device_configs d) =
         filter (\<lambda>r. dc_device_id r \<noteq> sd) (device_configs (db s))"
        by (rule rows [THEN conjunct2, THEN conjunct2])
    qed
    show ?thesis
      unfolding p using m five up n by (simp add: None)
  qed
qed

text \<open>
  C7, as amended. The handler of \<open>POST /api/device/config\<close> answers 400 exactly when Joi
  finds the body outside the schema (an object with a non-empty text \<open>device_id\<close>, an
  array \<open>feeding_times\<close> of texts matching HH:MM, a \<open>duration_minutes\<close> from 1 to 120 that
  is a number or a text Joi converts to one, and no other key), and then nothing changes,
  neither the registry nor the store. A body that passes always upserts the device's
  entry of \<open>deviceConfigs\<close>, before the store is asked: afterwards the entry holds the
  posted times and duration, whether it was absent or present, and every other entry is
  as before. The \<open>device_configs\<close> table is upserted only when the store takes the
  statement: then the answer is 200 and the table holds the posted times and duration for
  the device, the rows of other devices unchanged; that happens whenever the store is up,
  does not refuse the statement, the id fits the column and the store reads the duration
  as a whole number. Otherwise, so when the store is unreachable or the duration is not a
  whole number, the answer is 500, the table is as before, and the registry entry has
  been changed all the same.
\<close>

theorem post_device_config_upserts:
  "((status (fst (post_device_config e body s)) = 400) =
      (validate e configUpdateSchema body \<noteq> None)) \<and>
   ((validate e configUpdateSchema body = None) =
      (\<exists>kvs. body = JObj kvs \<and>
        (\<exists>d. map_of kvs ''device_id'' = Some (JStr d) \<and> d \<noteq> []) \<and>
        (\<exists>xs. map_of kvs ''feeding_times'' = Some (JArr xs) \<and>
              (\<forall>x \<in> set xs. \<exists>t. x = JStr t \<and> time_pattern t)) \<and>
        (\<exists>v n. map_of kvs ''duration_minutes'' = Some v \<and> joi_number e v = Inr n \<and>
               1 \<le> n \<and> n \<le> 120) \<and>
        fst ` set kvs \<subseteq> set [''device_id'', ''feeding_times'', ''duration_minutes''])) \<and>
   (validate e configUpdateSchema body \<noteq> None \<longrightarrow>
      snd (snd (post_device_config e body s)) = s) \<and>
   (validate e configUpdateSchema body = None \<longrightarrow>
      deviceConfigs (snd (snd (post_device_config e body s))) =
        AList.update (str_of (get_key ''device_id'' body))
          \<lparr>feeding_times = strs_of (get_key ''feeding_times'' body),
           duration_minutes = raw_of (get_key ''duration_minutes'' body),
           last_update = now e\<rparr>
          (deviceConfigs s) \<and>
      map_of (deviceConfigs (snd (snd (post_device_config e body s))))
          (str_of (get_key ''device_id'' body)) =
        Some \<lparr>feeding_times = strs_of (get_key ''feeding_times'' body),
              duration_minutes = raw_of (get_key ''duration_minutes'' body),
              last_update = now e\<rparr> \<and>
      (\<forall>k. k \<noteq> str_of (get_key ''device_id'' body) \<longrightarrow>
         map_of (deviceConfigs (snd (snd (post_device_config e body s)))) k =
         map_of (deviceConfigs s) k)) \<and>
   (status (fst (post_device_config e body s)) = 200 \<longrightarrow>
      (\<exists>sd n. varchar 100 (str_of (get_key ''device_id'' body)) = Inr sd \<and>
         integer_of_value e (raw_of (get_key ''duration_minutes'' body)) = Inr n \<and>
         (\<exists>r \<in> set (device_configs (db (snd (snd (post_device_config e body s))))).
            dc_device_id r = sd) \<and>
         (\<forall>r \<in> set (device_configs (db (snd (snd (post_device_config e body s))))).
            dc_device_id r = sd \<longrightarrow>
            dc_feeding_times r = strs_of (get_key ''feeding_times'' body) \<and>
            dc_duration_minutes r = n) \<and>
         filter (\<lambda>r. dc_device_id r \<noteq> sd)
            (device_configs (db (snd (snd (post_device_config e body s))))) =
         filter (\<lambda>r. dc_device_id r \<noteq> sd) (device_configs (db s)))) \<and>
   (validate e configUpdateSchema body = None \<and> db_up e \<and>
    \<not> rejects e UpsertDeviceConfig
        [PText (str_of (get_key ''device_id'' body)),
         PTexts (strs_of (get_key ''feeding_times'' body)),
         param_of (raw_of (get_key ''duration_minutes'' body))] \<and>
    length (str_of (get_key ''device_id'' body)) \<le> 100 \<and>
    (\<exists>n. integer_of_value e (raw_of (get_key ''duration_minutes'' body)) = Inr n) \<longrightarrow>
      status (fst (post_device_config e body s)) = 200) \<and>
   (status (fst (post_device_config e body s)) = 200 \<or>
    status (fst (post_device_config e body s)) = 400 \<or>
    status (fst (post_device_config e body s)) = 500) \<and>
   (status (fst (post_device_config e body s)) = 500 \<longrightarrow>
      db (snd (snd (post_device_config e body s))) = db s) \<and>
   (validate e configUpdateSchema body = None \<and> \<not> db_up e \<longrightarrow>
      status (fst (post_device_config e body s)) = 500) \<and>
   (validate e configUpdateSchema body = None \<and>
    (\<forall>n. integer_of_value e (raw_of (get_key ''duration_minutes'' body)) \<noteq> Inr n) \<longrightarrow>
      status (fst (post_device_config e body s)) = 500)"
proof -
  note c = post_device_config_cases [of e body s]
  show ?thesis
    apply (intro conjI)
             apply (rule c [THEN conjunct1])
            apply (rule validate_configUpdateSchema)
           apply (rule c [THEN conjunct2, THEN conjunct1])
          apply (rule c [THEN conjunct2, THEN conjunct2, THEN conjunct1])
         apply (rule c [THEN conjunct2, THEN conjunct2, THEN conjunct2, THEN conjunct1])
        apply (rule c [THEN conjunct2, THEN conjunct2, THEN conjunct2, THEN conjunct2,
          THEN conjunct1])
       apply (rule c [THEN conjunct2, THEN conjunct2, THEN conjunct2, THEN conjunct2,
          THEN conjunct2, THEN conjunct1])
      apply (rule c [THEN conjunct2, THEN conjunct2, THEN conjunct2, THEN conjunct2,
          THEN conjunct2, THEN conjunct2, THEN conjunct1])
     apply (rule c [THEN conjunct2, THEN conjunct2, THEN conjunct2, THEN conjunct2,
          THEN conjunct2, THEN conjunct2, THEN conjunct2, THEN conjunct1])
    apply (rule c [THEN conjunct2, THEN conjunct2, THEN conjunct2, THEN conjunct2,
          THEN conjunct2, THEN conjunct2, THEN conjunct2, THEN conjunct2])
    done
qed

theorem post_device_config_upserts_witness:
  "validate env0 configUpdateSchema config_body = None \<and>
   status (fst (post_device_config env0 config_body server1)) = 200 \<and>
   deviceConfigs (snd (snd (post_device_config env0 config_body server1))) =
     [(''feeder-1'',
       \<lparr>feeding_times = [''12:00''], duration_minutes = JNum 30,
        last_update = 1704110400000\<rparr>)] \<and>
   status (fst (post_device_config env0 (JObj []) server1)) = 400 \<and>
   snd (snd (post_device_config env0 (JObj []) server1)) = server1 \<and>
   validate env0 configUpdateSchema text_config_body = None \<and>
   status (fst (post_device_config env0 text_config_body server1)) = 200 \<and>
   deviceConfigs (snd (snd (post_device_config env0 text_config_body server1))) =
     [(''feeder-1'',
       \<lparr>feeding_times = [''12:00''], duration_minutes = JStr ''30'',
        last_update = 1704110400000\<rparr>)]"
proof -
  note t = post_device_config_upserts [of env0 config_body server1]
  have pre: "validate env0 configUpdateSchema config_body = None \<and> db_up env0 \<and>
    \<not> rejects env0 UpsertDeviceConfig
        [PText (str_of (get_key ''device_id'' config_body)),
         PTexts (strs_of (get_key ''feeding_times'' config_body)),
         param_of (raw_of (get_key ''duration_minutes'' config_body))] \<and>
    length (str_of (get_key ''device_id'' config_body)) \<le> 100 \<and>
    (\<exists>n. integer_of_value env0 (raw_of (get_key ''duration_minutes'' config_body)) = Inr n)"
    by (simp add: validate_config_body env0_fields)
       (simp add: config_body_def integer_of_value_def integer_of_def)
  note t4 = t [THEN conjunct2, THEN conjunct2, THEN conjunct2, THEN conjunct1]
  note t6 = t [THEN conjunct2, THEN conjunct2, THEN conjunct2, THEN conjunct2,
      THEN conjunct2, THEN conjunct1]
  have ok: "status (fst (post_device_config env0 config_body server1)) = 200"
    by (rule mp [OF t6 pre])
  have "deviceConfigs (snd (snd (post_device_config env0 config_body server1))) =
        AList.update (str_of (get_key ''device_id'' config_body))
          \<lparr>feeding_times = strs_of (get_key ''feeding_times'' config_body),
           duration_minutes = raw_of (get_key ''duration_minutes'' config_body),
           last_update = now env0\<rparr>
          (deviceConfigs server1)"
    by (rule mp [OF t4 validate_config_body, THEN conjunct1])
  then have reg: "deviceConfigs (snd (snd (post_device_config env0 config_body server1))) =
     [(''feeder-1'',
       \<lparr>feeding_times = [''12:00''], duration_minutes = JNum 30,
        last_update = 1704110400000\<rparr>)]"
    by (simp add: config_body_def server1_def env0_fields)
  have inv: "validate env0 configUpdateSchema (JObj []) \<noteq> None"
    by (simp add: validate_def configUpdateSchema_def)
  note u = post_device_config_upserts [of env0 "JObj []" server1]
  have bad: "status (fst (post_device_config env0 (JObj []) server1)) = 400"
    by (rule iffD2 [OF u [THEN conjunct1] inv])
  have same: "snd (snd (post_device_config env0 (JObj []) server1)) = server1"
    by (rule mp [OF u [THEN conjunct2, THEN conjunct2, THEN conjunct1] inv])
  note w = post_device_config_upserts [of env0 text_config_body server1]
  have vt: "validate env0 configUpdateSchema text_config_body = None"
    by (simp add: validate_def configUpdateSchema_def text_config_body_def joi_number_def
        env0_fields)
  have pret: "validate env0 configUpdateSchema text_config_body = None \<and> db_up env0 \<and>
    \<not> rejects env0 UpsertDeviceConfig
        [PText (str_of (get_key ''device_id'' text_config_body)),
         PTexts (strs_of (get_key ''feeding_times'' text_config_body)),
         param_of (raw_of (get_key ''duration_minutes'' text_config_body))] \<and>
    length (str_of (get_key ''device_id'' text_config_body)) \<le> 100 \<and>
    (\<exists>n. integer_of_value env0 (raw_of (get_key ''duration_minutes'' text_config_body)) =
          Inr n)"
    by (simp add: vt env0_fields)
       (simp add: text_config_body_def integer_of_value_def env0_fields)
  have okt: "status (fst (post_device_config env0 text_config_body server1)) = 200"
    by (rule mp [OF w [THEN conjunct2, THEN conjunct2, THEN conjunct2, THEN conjunct2,
      THEN conjunct2, THEN conjunct1] pret])
  have "deviceConfigs (snd (snd (post_device_config env0 text_config_body server1))) =
        AList.update (str_of (get_key ''device_id'' text_config_body))
          \<lparr>feeding_times = strs_of (get_key ''feeding_times'' text_config_body),
           duration_minutes = raw_of (get_key ''duration_minutes'' text_config_body),
           last_update = now env0\<rparr>
          (deviceConfigs server1)"
    by (rule mp [OF w [THEN conjunct2, THEN conjunct2, THEN conjunct2, THEN conjunct1] vt,
          THEN conjunct1])
  then have regt:
    "deviceConfigs (snd (snd (post_device_config env0 text_config_body server1))) =
     [(''feeder-1'',
       \<lparr>feeding_times = [''12:00''], duration_minutes = JStr ''30'',
        last_update = 1704110400000\<rparr>)]"
    by (simp add: text_config_body_def server1_def env0_fields)
  note ok reg bad same vt okt regt
  with validate_config_body show ?thesis by simp
qed

text \<open>
  The claim as written fails: a valid body posted while the store is unreachable is
  answered 500 and creates no row of \<open>device_configs\<close>, though the registry entry is
  created; and with the store answering, the same happens to a valid body whose duration
  is 30.5.
\<close>

theorem valid_config_is_not_always_stored:
  "validate env_down configUpdateSchema config_body = None \<and>
   status (fst (post_device_config env_down config_body server0)) = 500 \<and>
   device_configs (db (snd (snd (post_device_config env_down config_body server0)))) = [] \<and>
   map fst (deviceConfigs (snd (snd (post_device_config env_down config_body server0)))) =
     [''feeder-1''] \<and>
   validate env0 configUpdateSchema half_config_body = None \<and>
   status (fst (post_device_config env0 half_config_body server0)) = 500 \<and>
   device_configs (db (snd (snd (post_device_config env0 half_config_body server0)))) = [] \<and>
   map fst (deviceConfigs (snd (snd (post_device_config env0 half_config_body server0)))) =
     [''feeder-1'']"
proof -
  have vh: "validate env0 configUpdateSchema half_config_body = None"
    by (simp add: validate_def configUpdateSchema_def half_config_body_def joi_number_def)
  have ph: "post_device_config env0 half_config_body server0 =
     (internal_server_error, [LogError ''Error updating device config:'' InvalidInteger],
      \<lparr>deviceConfigs =
         [(''feeder-1'',
           \<lparr>feeding_times = [''12:00''], duration_minutes = JNum (61 / 2),
            last_update = 1704110400000\<rparr>)],
       db = empty_db\<rparr>)"
    by (simp add: post_device_config_def vh Let_def)
       (simp add: half_config_body_def upsert_device_config_def pool_query_fails_def
          integer_of_value_def integer_of_def floor_half env0_fields server0_def)
  have vd: "validate env_down configUpdateSchema config_body = None"
    by (simp add: validate_def configUpdateSchema_def config_body_def joi_number_def)
  have pd: "post_device_config env_down config_body server0 =
     (internal_server_error, [LogError ''Error updating device config:'' StoreFailure],
      \<lparr>deviceConfigs =
         [(''feeder-1'',
           \<lparr>feeding_times = [''12:00''], duration_minutes = JNum 30,
            last_update = 1704110400000\<rparr>)],
       db = empty_db\<rparr>)"
    by (simp add: post_device_config_def vd Let_def)
       (simp add: config_body_def upsert_device_config_def pool_query_fails_def
          env_down_fields server0_def)
  show ?thesis
    unfolding ph pd
    by (simp add: vh vd internal_server_error_def empty_db_def)
qed

subsection \<open>When the check records an incident\<close>

text \<open>
  C1, as amended. Take a tick for which the store is up and refuses none of the tick's
  statements, and a registry whose device ids fit the \<open>VARCHAR(100)\<close> column. For every
  registered device with an entry equal to the current local minute, after the tick an
  incident with key (device, tick instant) exists if and only if it existed before or the
  log holds no \<open>open\<close> event of that device stamped at or after \<open>NOW() - 5 minutes\<close>; and,
  the keys of the table being distinct, the tick adds a row for the device if and only
  if no such event is in the log and no incident with that key exists yet. The window
  is the five minutes before the tick, open above. In Scenario B (schedule
  \<open>["12:00"]\<close>, no event in the log, ticks from 12:00 to 12:06) exactly one incident is
  inserted, by the tick of 12:00.
\<close>

theorem detector_records_iff_no_recent_open:
  assumes "db_up e"
    and "\<forall>p \<in> set (deviceConfigs s). length (fst p) \<le> 100 \<and>
           \<not> rejects e CountOpenFeedings [PText (fst p)] \<and>
           \<not> rejects e InsertMissedFeeding [PText (fst p), PDate (now e)]"
    and "(dev, cfg) \<in> set (deviceConfigs s)"
    and "List.member (feeding_times cfg) (currentTime e)"
  shows "has_incident (db (step e CronTick s)) dev (now e) =
           (has_incident (db s) dev (now e) \<or>
            filter (is_recent_open e dev) (feeding_logs (db s)) = []) \<and>
         (distinct (map mf_key (missed_feedings (db s))) \<longrightarrow>
            (\<exists>new. missed_feedings (db (step e CronTick s)) = missed_feedings (db s) @ new \<and>
               (dev \<in> set (map mf_device_id new)) =
               (\<not> has_incident (db s) dev (now e) \<and>
                filter (is_recent_open e dev) (feeding_logs (db s)) = []))) \<and>
         map mf_key (missed_feedings (db (run seven_ticks server1))) =
           [(''feeder-1'', 1704110400000)]"
proof -
  obtain x lg d' where
    r: "check_devices e (currentTime e) (deviceConfigs s) [] (db s) = (x, lg, d')"
    by (cases "check_devices e (currentTime e) (deviceConfigs s) [] (db s)")
  have "x = None"
    using check_devices_completes [OF assms(1,2), of "currentTime e" "[]" "db s"] r by simp
  with r have r': "check_devices e (currentTime e) (deviceConfigs s) [] (db s) = (None, lg, d')"
    by simp
  have lens: "\<forall>p \<in> set (deviceConfigs s). length (fst p) \<le> 100"
    using assms(2) by blast
  have d': "db (step e CronTick s) = d'"
    by (simp add: tick_db r)
  have dec: "has_incident d' dev (now e) =
           (has_incident (db s) dev (now e) \<or>
            filter (is_recent_open e dev) (feeding_logs (db s)) = [])"
    unfolding check_devices_decides [OF r' lens] using assms(3,4) by blast
  have two: "\<exists>new. missed_feedings d' = missed_feedings (db s) @ new \<and>
               (dev \<in> set (map mf_device_id new)) =
               (\<not> has_incident (db s) dev (now e) \<and>
                filter (is_recent_open e dev) (feeding_logs (db s)) = [])"
    if dist: "distinct (map mf_key (missed_feedings (db s)))"
  proof -
    from check_devices_rows [OF r] obtain new where
      new: "missed_feedings d' = missed_feedings (db s) @ new" and
      at: "\<forall>r \<in> set new. mf_scheduled_time r = now e"
      by blast
    have k: "(dev \<in> set (map mf_device_id new)) = ((dev, now e) \<in> set (map mf_key new))"
      using at by (auto simp: mf_key_def image_iff)
    have "distinct (map mf_key (missed_feedings d'))"
      using check_devices_distinct [OF r dist] .
    then have disj: "(dev, now e) \<in> set (map mf_key new) \<longrightarrow> \<not> has_incident (db s) dev (now e)"
      unfolding new has_incident_key by auto
    have "has_incident d' dev (now e) =
          (has_incident (db s) dev (now e) \<or> (dev, now e) \<in> set (map mf_key new))"
      by (rule has_incident_append [OF new])
    with dec disj have "((dev, now e) \<in> set (map mf_key new)) =
               (\<not> has_incident (db s) dev (now e) \<and>
                filter (is_recent_open e dev) (feeding_logs (db s)) = [])"
      by blast
    with k new show ?thesis by blast
  qed
  show ?thesis
    unfolding d' using dec two seven_ticks_server1 by blast
qed

theorem detector_records_iff_no_recent_open_witness:
  "has_incident (db (step (env_at 0) CronTick server1)) ''feeder-1'' (now (env_at 0)) \<and>
   \<not> has_incident (db (step (env_at 0) CronTick server2)) ''feeder-1'' (now (env_at 0)) \<and>
   filter (is_recent_open (env_at 0) ''feeder-1'') (feeding_logs (db server1)) = [] \<and>
   filter (is_recent_open (env_at 0) ''feeder-1'') (feeding_logs (db server2)) \<noteq> []"
proof -
  have up: "db_up (env_at 0)" by (simp add: env_at_fields)
  have m: "List.member (feeding_times cfg12) (currentTime (env_at 0))"
    by (simp add: currentTime_env_at cfg12_def)
  have p1: "\<forall>p \<in> set (deviceConfigs server1). length (fst p) \<le> 100 \<and>
           \<not> rejects (env_at 0) CountOpenFeedings [PText (fst p)] \<and>
           \<not> rejects (env_at 0) InsertMissedFeeding [PText (fst p), PDate (now (env_at 0))]"
    and i1: "(''feeder-1'', cfg12) \<in> set (deviceConfigs server1)"
    and n1: "\<not> has_incident (db server1) ''feeder-1'' (now (env_at 0))"
    and f1: "filter (is_recent_open (env_at 0) ''feeder-1'') (feeding_logs (db server1)) = []"
    by (simp_all add: server1_def empty_db_def has_incident_def env_at_fields)
  have p2: "\<forall>p \<in> set (deviceConfigs server2). length (fst p) \<le> 100 \<and>
           \<not> rejects (env_at 0) CountOpenFeedings [PText (fst p)] \<and>
           \<not> rejects (env_at 0) InsertMissedFeeding [PText (fst p), PDate (now (env_at 0))]"
    and i2: "(''feeder-1'', cfg12) \<in> set (deviceConfigs server2)"
    and n2: "\<not> has_incident (db server2) ''feeder-1'' (now (env_at 0))"
    and f2: "filter (is_recent_open (env_at 0) ''feeder-1'') (feeding_logs (db server2)) \<noteq> []"
    by (simp_all add: server2_def empty_db_def has_incident_def is_recent_open_def env_at_fields)
  from detector_records_iff_no_recent_open [OF up p1 i1 m] n1 f1
  have a: "has_incident (db (step (env_at 0) CronTick server1)) ''feeder-1'' (now (env_at 0))"
    by blast
  from detector_records_iff_no_recent_open [OF up p2 i2 m] n2 f2
  have b: "\<not> has_incident (db (step (env_at 0) CronTick server2)) ''feeder-1'' (now (env_at 0))"
    by blast
  from a b f1 f2 show ?thesis by blast
qed

text \<open>
  The claim as written fails: with the schedule \<open>["12:00"]\<close> and a log whose only \<open>open\<close>
  event is stamped 11:57, no \<open>open\<close> event lies in the window from 12:00 to 12:05, and yet
  the seven ticks from 12:00 to 12:06 record no incident.
\<close>

theorem open_before_due_time_hides_miss:
  "List.member (feeding_times cfg12) (currentTime (env_at 0)) \<and>
   deviceConfigs server2 = [(''feeder-1'', cfg12)] \<and>
   scheduled_instant (env_at 0) = 1704110400000 \<and>
   \<not> spec_open_in_window (feeding_logs (db server2)) ''feeder-1'' 1704110400000 300000 \<and>
   missed_feedings (db (run seven_ticks server2)) = []"
  unfolding seven_ticks_server2
  by (simp add: currentTime_env_at cfg12_def server2_def empty_db_def spec_open_in_window_def
      scheduled_instant_def env_at_fields)

subsection \<open>Which devices the check looks at\<close>

lemma insert_missed_feeding_device_configs:
  "insert_missed_feeding e dev t (d\<lparr>device_configs := tbl\<rparr>) =
   map_sum id (\<lambda>d'. d'\<lparr>device_configs := tbl\<rparr>) (insert_missed_feeding e dev t d)"
  by (simp add: insert_missed_feeding_def has_incident_def split: sum.splits)

lemma check_devices_device_configs:
  "check_devices e ct cfgs lg (d\<lparr>device_configs := tbl\<rparr>) =
   (case check_devices e ct cfgs lg d of (x, lg', d') \<Rightarrow> (x, lg', d'\<lparr>device_configs := tbl\<rparr>))"
proof (induction cfgs arbitrary: lg d)
  case Nil
  then show ?case by simp
next
  case (Cons p rest)
  obtain dev cfg where p: "p = (dev, cfg)" by (cases p)
  have c: "count_open_feedings e dev (d\<lparr>device_configs := tbl\<rparr>) = count_open_feedings e dev d"
    by (simp add: count_open_feedings_def)
  show ?case
    unfolding p
    by (cases "insert_missed_feeding e dev (now e) d")
       (simp_all add: c insert_missed_feeding_device_configs Cons.IH split: sum.splits)
qed

lemma tick_ignores_device_configs:
  "missed_feedings (db (step e CronTick (s\<lparr>db := (db s)\<lparr>device_configs := tbl\<rparr>\<rparr>))) =
   missed_feedings (db (step e CronTick s))"
  by (simp add: tick_db check_devices_device_configs split: prod.splits)

lemma handle_deviceConfigs:
  "deviceConfigs (snd (snd (handle e r s))) =
   (case r of
      PostDeviceConfig body \<Rightarrow>
        if validate e configUpdateSchema body = None
        then AList.update (str_of (get_key ''device_id'' body))
               \<lparr>feeding_times = strs_of (get_key ''feeding_times'' body),
                duration_minutes = raw_of (get_key ''duration_minutes'' body),
                last_update = now e\<rparr>
               (deviceConfigs s)
        else deviceConfigs s
    | _ \<Rightarrow> deviceConfigs s)"
proof (cases r)
  case (PostDeviceConfig body)
  show ?thesis
  proof (cases "validate e configUpdateSchema body")
    case None
    from post_device_config_cases [of e body s] None show ?thesis
      by (simp add: PostDeviceConfig)
  next
    case (Some err)
    then show ?thesis
      by (simp add: PostDeviceConfig post_device_config_invalid)
  qed
next
  case (PostFeedingLog body)
  then show ?thesis
    by (simp add: post_feeding_log_def Let_def split: option.splits sum.splits)
qed (simp_all add: get_health_def get_feeding_logs_def get_feeding_missed_def get_stats_def
      Let_def split: sum.splits)

lemma run_registry_keys:
  assumes "dev \<in> fst ` set (deviceConfigs (run ops s))"
  shows "dev \<in> fst ` set (deviceConfigs s) \<or>
         (\<exists>e body. (e, Request (PostDeviceConfig body)) \<in> set ops \<and>
            validate e configUpdateSchema body = None \<and>
            str_of (get_key ''device_id'' body) = dev)"
  using assms
proof (induction ops arbitrary: s)
  case Nil
  then show ?case by simp
next
  case (Cons p ops)
  obtain e op where p: "p = (e, op)" by (cases p)
  from Cons.prems have "dev \<in> fst ` set (deviceConfigs (run ops (step e op s)))"
    by (simp add: p)
  from Cons.IH [OF this] consider
    (old) "dev \<in> fst ` set (deviceConfigs (step e op s))"
    | (later) "\<exists>e body. (e, Request (PostDeviceConfig body)) \<in> set ops \<and>
            validate e configUpdateSchema body = None \<and>
            str_of (get_key ''device_id'' body) = dev"
    by blast
  then show ?case
  proof cases
    case later
    then show ?thesis by (auto simp: p)
  next
    case old
    show ?thesis
    proof (cases op)
      case CronTick
      with old show ?thesis by (simp add: tick_deviceConfigs)
    next
      case (Request r)
      show ?thesis
      proof (cases "\<exists>body. r = PostDeviceConfig body \<and> validate e configUpdateSchema body = None")
        case False
        then have "deviceConfigs (step e op s) = deviceConfigs s"
          unfolding Request step.simps handle_deviceConfigs
          by (cases r) auto
        with old show ?thesis by simp
      next
        case True
        then obtain body where b: "r = PostDeviceConfig body"
          "validate e configUpdateSchema body = None" by blast
        have "fst ` set (deviceConfigs (step e op s)) =
              {str_of (get_key ''device_id'' body)} \<union> fst ` set (deviceConfigs s)"
          unfolding Request step.simps handle_deviceConfigs
          by (simp add: b AList.dom_update)
        with old b show ?thesis
          by (auto simp: p Request)
      qed
    qed
  qed
qed

lemma currentTime_next_noon: "currentTime (env_at 86400000) = ''12:00''"
  by (simp add: currentTime_def getHours_def getMinutes_def padStart_def env_at_fields
      digits.simps)

lemma config_body_fields:
  "str_of (get_key ''device_id'' config_body) = ''feeder-1''"
  "strs_of (get_key ''feeding_times'' config_body) = [''12:00'']"
  "raw_of (get_key ''duration_minutes'' config_body) = JNum 30"
  by (simp_all add: config_body_def)

lemma post_config_server0:
  "step env0 (Request (PostDeviceConfig config_body)) server0 =
   \<lparr>deviceConfigs =
      [(''feeder-1'',
        \<lparr>feeding_times = [''12:00''], duration_minutes = JNum 30, last_update = 1704110400000\<rparr>)],
    db = empty_db\<lparr>device_configs :=
      [\<lparr>dc_device_id = ''feeder-1'', dc_feeding_times = [''12:00''], dc_duration_minutes = 30,
        dc_created_at = 1704110400000, dc_updated_at = 1704110400000\<rparr>]\<rparr>\<rparr>"
  by (simp add: step.simps post_device_config_def validate_config_body Let_def
      config_body_fields upsert_device_config_def pool_query_fails_def integer_of_def
      integer_of_value_def
      varchar_def env0_fields server0_def empty_db_def)

lemma post_config_down_server0:
  "post_device_config env_down config_body server0 =
   (internal_server_error, [LogError ''Error updating device config:'' StoreFailure],
    \<lparr>deviceConfigs =
      [(''feeder-1'',
        \<lparr>feeding_times = [''12:00''], duration_minutes = JNum 30, last_update = 1704110400000\<rparr>)],
     db = empty_db\<rparr>)"
  by (simp add: post_device_config_def validate_config_body_down Let_def
      config_body_fields upsert_device_config_def pool_query_fails_def
      env_down_fields server0_def)

lemma tick_after_registration:
  "map mf_device_id (missed_feedings (db (step (env_at 86400000) CronTick
     \<lparr>deviceConfigs =
        [(''feeder-1'',
          \<lparr>feeding_times = [''12:00''], duration_minutes = JNum 30, last_update = 1704110400000\<rparr>)],
      db = empty_db\<lparr>device_configs := tbl\<rparr>\<rparr>))) = [''feeder-1'']"
  by (simp add: step.simps currentTime_next_noon cron_tick_def
      count_open_feedings_def insert_missed_feeding_def pool_query_fails_def varchar_def
      has_incident_def empty_db_def env_at_fields)

text \<open>
  C9, as amended. An incident is recorded only for a device that has an entry in the
  in-memory registry: every row a tick adds carries the id of a registry entry (as the
  column stores it). Starting from an empty registry, every such entry comes from a
  \<open>POST /api/device/config\<close> whose body passed validation, handled earlier in the run,
  whatever that request was answered (the entry is set before the store is written). The
  tick does not read the \<open>device_configs\<close> table: replacing the table by any other
  leaves the rows the tick writes the same.
\<close>

theorem incidents_only_for_registered_devices:
  "(\<exists>new. missed_feedings (db (step e CronTick s)) = missed_feedings (db s) @ new \<and>
      (\<forall>r \<in> set new. \<exists>p \<in> set (deviceConfigs s).
          varchar 100 (fst p) = Inr (mf_device_id r))) \<and>
   (deviceConfigs s0 = [] \<longrightarrow>
      (\<exists>new. missed_feedings (db (step e CronTick (run ops s0))) =
               missed_feedings (db (run ops s0)) @ new \<and>
         (\<forall>r \<in> set new. \<exists>e' body.
             (e', Request (PostDeviceConfig body)) \<in> set ops \<and>
             validate e' configUpdateSchema body = None \<and>
             varchar 100 (str_of (get_key ''device_id'' body)) = Inr (mf_device_id r)))) \<and>
   missed_feedings (db (step e CronTick (s\<lparr>db := (db s)\<lparr>device_configs := tbl\<rparr>\<rparr>))) =
     missed_feedings (db (step e CronTick s))"
proof -
  have one: "\<exists>new. missed_feedings (db (step e CronTick s')) = missed_feedings (db s') @ new \<and>
      (\<forall>r \<in> set new. \<exists>p \<in> set (deviceConfigs s').
          varchar 100 (fst p) = Inr (mf_device_id r))" for s'
  proof -
    obtain x lg d' where
      r: "check_devices e (currentTime e) (deviceConfigs s') [] (db s') = (x, lg, d')"
      by (cases "check_devices e (currentTime e) (deviceConfigs s') [] (db s')")
    from check_devices_rows [OF r] obtain new where
      "missed_feedings d' = missed_feedings (db s') @ new" and
      "\<forall>r \<in> set new. \<exists>p \<in> set (deviceConfigs s'). varchar 100 (fst p) = Inr (mf_device_id r)"
      by blast
    then show ?thesis
      by (simp add: tick_db r)
  qed
  have two: "\<exists>new. missed_feedings (db (step e CronTick (run ops s0))) =
               missed_feedings (db (run ops s0)) @ new \<and>
         (\<forall>r \<in> set new. \<exists>e' body.
             (e', Request (PostDeviceConfig body)) \<in> set ops \<and>
             validate e' configUpdateSchema body = None \<and>
             varchar 100 (str_of (get_key ''device_id'' body)) = Inr (mf_device_id r))"
    if empty: "deviceConfigs s0 = []"
  proof -
    from one [of "run ops s0"] obtain new where
      new: "missed_feedings (db (step e CronTick (run ops s0))) =
            missed_feedings (db (run ops s0)) @ new" and
      reg: "\<forall>r \<in> set new. \<exists>p \<in> set (deviceConfigs (run ops s0)).
          varchar 100 (fst p) = Inr (mf_device_id r)"
      by blast
    have "\<exists>e' body. (e', Request (PostDeviceConfig body)) \<in> set ops \<and>
             validate e' configUpdateSchema body = None \<and>
             varchar 100 (str_of (get_key ''device_id'' body)) = Inr (mf_device_id r)"
      if "r \<in> set new" for r
    proof -
      from reg that obtain p where p: "p \<in> set (deviceConfigs (run ops s0))"
        "varchar 100 (fst p) = Inr (mf_device_id r)" by blast
      then have "fst p \<in> fst ` set (deviceConfigs (run ops s0))" by simp
      from run_registry_keys [OF this] empty obtain e' body where
        "(e', Request (PostDeviceConfig body)) \<in> set ops"
        "validate e' configUpdateSchema body = None"
        "str_of (get_key ''device_id'' body) = fst p"
        by auto
      with p(2) show ?thesis by metis
    qed
    with new show ?thesis by blast
  qed
  from one [of s] two tick_ignores_device_configs [where e = e and s = s and tbl = tbl] show ?thesis by blast
qed

theorem incidents_only_for_registered_devices_witness:
  "deviceConfigs server0 = [] \<and>
   map mf_device_id (missed_feedings (db (step (env_at 86400000) CronTick
      (run [(env0, Request (PostDeviceConfig config_body))] server0)))) = [''feeder-1''] \<and>
   missed_feedings (db (step (env_at 86400000) CronTick
      (server0\<lparr>db := (db server0)\<lparr>device_configs := [db_only_row]\<rparr>\<rparr>))) = []"
proof -
  have e: "deviceConfigs server0 = []" by (simp add: server0_def)
  have a: "map mf_device_id (missed_feedings (db (step (env_at 86400000) CronTick
      (run [(env0, Request (PostDeviceConfig config_body))] server0)))) = [''feeder-1'']"
    by (simp add: post_config_server0 tick_after_registration)
  have "step (env_at 86400000) CronTick server0 = server0"
    by (rule tick_no_match) (simp add: server0_def)
  then have "missed_feedings (db (step (env_at 86400000) CronTick server0)) = []"
    by (simp add: server0_def empty_db_def)
  with incidents_only_for_registered_devices
    [where e = "env_at 86400000" and s = server0 and ?s0.0 = server0 and ops = "[]"
      and tbl = "[db_only_row]"]
  have "missed_feedings (db (step (env_at 86400000) CronTick
      (server0\<lparr>db := (db server0)\<lparr>device_configs := [db_only_row]\<rparr>\<rparr>))) = []"
    by simp
  with e a show ?thesis by blast
qed

text \<open>
  The claim as written fails: a configuration posted while the store is unreachable is
  answered 500, and the tick at noon of the next day records an incident for that device
  all the same.
\<close>

theorem failed_registration_is_still_checked:
  "status (fst (handle env_down (PostDeviceConfig config_body) server0)) = 500 \<and>
   map mf_device_id (missed_feedings (db
      (run [(env_down, Request (PostDeviceConfig config_body)), (env_at 86400000, CronTick)]
           server0))) = [''feeder-1'']"
proof -
  have "status (fst (handle env_down (PostDeviceConfig config_body) server0)) = 500"
    by (simp add: post_config_down_server0 internal_server_error_def)
  moreover have "map mf_device_id (missed_feedings (db
      (run [(env_down, Request (PostDeviceConfig config_body)), (env_at 86400000, CronTick)]
           server0))) = [''feeder-1'']"
    using tick_after_registration [of "[]"]
    by (simp add: step.simps(1) post_config_down_server0 empty_db_def)
  ultimately show ?thesis by blast
qed

end
